theory Spec2Isabelle
  imports Main "HOL-Library.AList" "HOL-Library.Char_ord" "HOL-Library.List_Lexorder"
    "HOL-Library.Multiset"
begin

section \<open>Python values, exceptions and files\<close>

text \<open>
  The tool servers keep every record as a JSON file and work on what \<^verbatim>\<open>json.load\<close> returns:
  \<^verbatim>\<open>None\<close>, booleans, integers, strings, lists and dictionaries with string keys. A dictionary is
  an association list in insertion order. Floating point numbers are left out of the embedding.
\<close>

datatype pyval =
    PNone
  | PBool bool
  | PInt int
  | PStr string
  | PList "pyval list"
  | PDict "(string \<times> pyval) list"

text \<open>
  Exceptions are values. \<open>Unmodelled\<close> is not a Python exception: it marks the two places where
  the embedding stops (formatting a list or a dictionary into a file name, and sorting on keys that
  are not all strings).
\<close>

datatype py_error =
    KeyError string
  | TypeError
  | AttributeError
  | JSONDecodeError
  | IOError
  | UnicodeDecodeError
  | OverflowError
  | ValueError string
  | Unmodelled

definition py_bind :: "py_error + 'a \<Rightarrow> ('a \<Rightarrow> py_error + 'b) \<Rightarrow> py_error + 'b" where
  "py_bind m f = (case m of Inl e \<Rightarrow> Inl e | Inr x \<Rightarrow> f x)"

fun py_mapM :: "('a \<Rightarrow> py_error + 'b) \<Rightarrow> 'a list \<Rightarrow> py_error + 'b list" where
  "py_mapM f [] = Inr []"
| "py_mapM f (x # xs) = py_bind (f x) (\<lambda>y. py_bind (py_mapM f xs) (\<lambda>ys. Inr (y # ys)))"

text \<open>Truth value of a Python object, as tested by \<^verbatim>\<open>if not x\<close>.\<close>

fun truthy :: "pyval \<Rightarrow> bool" where
  "truthy PNone = False"
| "truthy (PBool b) = b"
| "truthy (PInt i) = (i \<noteq> 0)"
| "truthy (PStr s) = (s \<noteq> [])"
| "truthy (PList xs) = (xs \<noteq> [])"
| "truthy (PDict d) = (d \<noteq> [])"

text \<open>\<^verbatim>\<open>x[key]\<close> with a string key: only a dictionary accepts it.\<close>

fun getitem :: "pyval \<Rightarrow> string \<Rightarrow> py_error + pyval" where
  "getitem (PDict d) k = (case map_of d k of None \<Rightarrow> Inl (KeyError k) | Some v \<Rightarrow> Inr v)"
| "getitem _ k = Inl TypeError"

text \<open>\<^verbatim>\<open>x[key] = value\<close> with a string key.\<close>

fun setitem :: "pyval \<Rightarrow> string \<Rightarrow> pyval \<Rightarrow> py_error + pyval" where
  "setitem (PDict d) k v = Inr (PDict (AList.update k v d))"
| "setitem _ k v = Inl TypeError"

text \<open>\<^verbatim>\<open>x.get(key, default)\<close>: a method of dictionaries only.\<close>

fun get_default :: "pyval \<Rightarrow> string \<Rightarrow> pyval \<Rightarrow> py_error + pyval" where
  "get_default (PDict d) k dflt = (case map_of d k of None \<Rightarrow> Inr dflt | Some v \<Rightarrow> Inr v)"
| "get_default _ k dflt = Inl AttributeError"

text \<open>Decimal text of an integer, as \<^verbatim>\<open>str\<close> and f-strings print it.\<close>

fun digits :: "nat \<Rightarrow> string" where
  "digits n = (if n < 10 then [''0123456789'' ! n]
               else digits (n div 10) @ [''0123456789'' ! (n mod 10)])"

declare digits.simps [simp del]

definition str_int :: "int \<Rightarrow> string" where
  "str_int i = (if i < 0 then CHR ''-'' # digits (nat (- i)) else digits (nat i))"

text \<open>\<^verbatim>\<open>str(x)\<close> as an f-string applies it; the text of a list or dictionary is not modelled.\<close>

fun py_str :: "pyval \<Rightarrow> py_error + string" where
  "py_str (PStr s) = Inr s"
| "py_str (PInt i) = Inr (str_int i)"
| "py_str (PBool b) = Inr (if b then ''True'' else ''False'')"
| "py_str PNone = Inr ''None''"
| "py_str (PList xs) = Inl Unmodelled"
| "py_str (PDict d) = Inl Unmodelled"

text \<open>
  A file of a store directory is given by what \<^verbatim>\<open>open(path, "r")\<close> followed by
  \<^verbatim>\<open>json.load\<close> does with it: it parses to a value, it is text that is not JSON
  (\<^verbatim>\<open>JSONDecodeError\<close>), it cannot be opened or read (\<^verbatim>\<open>IOError\<close>), or its bytes are
  not text in the encoding of \<^verbatim>\<open>open\<close> (\<^verbatim>\<open>UnicodeDecodeError\<close>, a \<^verbatim>\<open>ValueError\<close>
  that is neither of the former two). \<^verbatim>\<open>json.dump\<close> of a value writes a file that parses to it.
  A directory lists its files by name, in the order in which \<^verbatim>\<open>glob\<close> enumerates them; writing
  to a file of the directory is taken to succeed.
\<close>

datatype file_state = Parsed pyval | Malformed | Unreadable | Undecodable

type_synonym directory = "(string \<times> file_state) list"

fun json_load :: "file_state \<Rightarrow> py_error + pyval" where
  "json_load (Parsed v) = Inr v"
| "json_load Malformed = Inl JSONDecodeError"
| "json_load Unreadable = Inl IOError"
| "json_load Undecodable = Inl UnicodeDecodeError"

text \<open>
  \<^verbatim>\<open>try: ... json.load(f) ... except (json.JSONDecodeError, IOError): <handler>\<close>: the two
  listed exceptions reach the handler (\<open>None\<close> here), any other one propagates.
\<close>

definition try_load :: "file_state \<Rightarrow> py_error + pyval option" where
  "try_load f = (case json_load f of
       Inr v \<Rightarrow> Inr (Some v)
     | Inl JSONDecodeError \<Rightarrow> Inr None
     | Inl IOError \<Rightarrow> Inr None
     | Inl e \<Rightarrow> Inl e)"

text \<open>\<^verbatim>\<open>DIR.glob(prefix + "*" + suffix)\<close>: the names of the directory itself that match.\<close>

definition glob_match :: "string \<Rightarrow> string \<Rightarrow> string \<Rightarrow> bool" where
  "glob_match pre suf name \<longleftrightarrow>
     length pre + length suf \<le> length name \<and> take (length pre) name = pre \<and>
     drop (length name - length suf) name = suf \<and> CHR ''/'' \<notin> set name"

definition glob :: "string \<Rightarrow> string \<Rightarrow> directory \<Rightarrow> directory" where
  "glob pre suf fs = filter (\<lambda>(name, f). glob_match pre suf name) fs"

text \<open>
  The loop of \<^verbatim>\<open>list_messages\<close> and \<^verbatim>\<open>list_processes\<close>: files that raise one of the two
  caught exceptions are skipped.
\<close>

fun load_all :: "file_state list \<Rightarrow> py_error + pyval list" where
  "load_all [] = Inr []"
| "load_all (f # fs) =
     py_bind (try_load f) (\<lambda>r. py_bind (load_all fs) (\<lambda>vs.
       Inr (case r of None \<Rightarrow> vs | Some v \<Rightarrow> v # vs)))"

text \<open>
  \<^verbatim>\<open>xs.sort(key=lambda x: x.get(field, ""), reverse=True)\<close>. The keys of all entries are
  computed first. The sort is stable, and with \<^verbatim>\<open>reverse=True\<close> entries with equal keys keep
  their order. With fewer than two entries nothing is compared.
\<close>

fun the_str :: "pyval \<Rightarrow> string" where
  "the_str (PStr s) = s"
| "the_str _ = []"

fun is_str :: "pyval \<Rightarrow> bool" where
  "is_str (PStr s) = True"
| "is_str _ = False"

fun is_list :: "pyval \<Rightarrow> bool" where
  "is_list (PList xs) = True"
| "is_list _ = False"

definition sort_newest_first :: "string \<Rightarrow> pyval list \<Rightarrow> py_error + pyval list" where
  "sort_newest_first field xs =
     py_bind (py_mapM (\<lambda>x. get_default x field (PStr [])) xs) (\<lambda>keys.
       if length xs < 2 then Inr xs
       else if list_all is_str keys then
         Inr (map snd (rev (sort_key (\<lambda>kx. the_str (fst kx)) (rev (zip keys xs)))))
       else Inl Unmodelled)"

section \<open>The mail tool server\<close>

definition get_message_path :: "string \<Rightarrow> string" where
  "get_message_path message_id = ''msg_'' @ message_id @ ''.json''"

text \<open>\<^verbatim>\<open>"0123456789abcdef"[n]\<close>\<close>

definition hexdigit :: "nat \<Rightarrow> char" where
  "hexdigit n = ''0123456789abcdef'' ! n"

text \<open>
  \<^verbatim>\<open>str(uuid.uuid4())\<close>: the 32 lower-case hexadecimal digits of the identifier's 128-bit
  integer, grouped 8-4-4-4-12. The integer is drawn by the system; the functions below take it as
  an argument.
\<close>

definition hex32 :: "nat \<Rightarrow> string" where
  "hex32 n = map (\<lambda>i. hexdigit ((n div 16 ^ (31 - i)) mod 16)) [0..<32]"

definition uuid_str :: "nat \<Rightarrow> string" where
  "uuid_str n = (let h = hex32 n in
     take 8 h @ ''-'' @ take 4 (drop 8 h) @ ''-'' @ take 4 (drop 12 h) @ ''-'' @
     take 4 (drop 16 h) @ ''-'' @ drop 20 h)"

definition generate_message_id :: "nat \<Rightarrow> string" where
  "generate_message_id uuid4 = uuid_str uuid4"

definition save_message :: "directory \<Rightarrow> pyval \<Rightarrow> py_error + directory" where
  "save_message fs message =
     py_bind (getitem message ''id'') (\<lambda>i. py_bind (py_str i) (\<lambda>message_id.
       Inr (AList.update (get_message_path message_id) (Parsed message) fs)))"

definition load_message :: "directory \<Rightarrow> string \<Rightarrow> py_error + pyval option" where
  "load_message fs message_id =
     (case map_of fs (get_message_path message_id) of
        None \<Rightarrow> Inr None
      | Some f \<Rightarrow> try_load f)"

definition list_messages :: "directory \<Rightarrow> py_error + pyval list" where
  "list_messages fs =
     py_bind (load_all (map snd (glob ''msg_'' ''.json'' fs))) (sort_newest_first ''timestamp'')"

text \<open>
  \<open>uuid4\<close> is the integer of the identifier drawn by \<^verbatim>\<open>uuid.uuid4()\<close>, \<open>now\<close> the text of
  \<^verbatim>\<open>datetime.utcnow().isoformat()\<close>.
\<close>

definition mcp__mail_send ::
  "nat \<Rightarrow> string \<Rightarrow> directory \<Rightarrow> string \<Rightarrow> string list \<Rightarrow> string \<Rightarrow> string \<Rightarrow>
     py_error + (string \<times> directory)" where
  "mcp__mail_send uuid4 now fs from_agent to_agents subject body =
     (let message_id = generate_message_id uuid4;
          timestamp = now @ ''Z'';
          message = PDict [(''id'', PStr message_id), (''from'', PStr from_agent),
                           (''to'', PList (map PStr to_agents)), (''subject'', PStr subject),
                           (''body'', PStr body), (''timestamp'', PStr timestamp),
                           (''read'', PBool False)]
      in py_bind (save_message fs message) (\<lambda>fs'. Inr (message_id, fs')))"

text \<open>\<^verbatim>\<open>s in t\<close> for two strings: \<open>s\<close> occurs in \<open>t\<close> as a contiguous part.\<close>

fun substring :: "string \<Rightarrow> string \<Rightarrow> bool" where
  "substring s [] = (s = [])"
| "substring s (c # t) = (take (length s) (c # t) = s \<or> substring s t)"

text \<open>\<^verbatim>\<open>to_agent in x\<close> for a string \<open>to_agent\<close>.\<close>

fun str_in :: "string \<Rightarrow> pyval \<Rightarrow> py_error + bool" where
  "str_in s (PList xs) = Inr (PStr s \<in> set xs)"
| "str_in s (PStr t) = Inr (substring s t)"
| "str_in s (PDict d) = Inr (s \<in> fst ` set d)"
| "str_in s _ = Inl TypeError"

definition inbox_summary :: "pyval \<Rightarrow> py_error + pyval" where
  "inbox_summary message =
     py_bind (getitem message ''id'') (\<lambda>i.
     py_bind (getitem message ''from'') (\<lambda>f.
     py_bind (getitem message ''subject'') (\<lambda>s.
     py_bind (getitem message ''timestamp'') (\<lambda>t.
     py_bind (get_default message ''read'' (PBool False)) (\<lambda>r.
       Inr (PDict [(''id'', i), (''from'', f), (''subject'', s), (''timestamp'', t),
                   (''read'', r)]))))))"

fun inbox_loop :: "string \<Rightarrow> pyval list \<Rightarrow> py_error + pyval list" where
  "inbox_loop to_agent [] = Inr []"
| "inbox_loop to_agent (message # rest) =
     py_bind (get_default message ''to'' (PList [])) (\<lambda>recipients.
     py_bind (str_in to_agent recipients) (\<lambda>addressed.
       if addressed then
         py_bind (inbox_summary message) (\<lambda>summary.
         py_bind (inbox_loop to_agent rest) (\<lambda>inbox. Inr (summary # inbox)))
       else inbox_loop to_agent rest))"

definition mcp__mail_inbox :: "directory \<Rightarrow> string \<Rightarrow> py_error + pyval list" where
  "mcp__mail_inbox fs to_agent = py_bind (list_messages fs) (inbox_loop to_agent)"

text \<open>
  \<^verbatim>\<open>mcp__mail_read\<close> returns its result together with the directory it leaves behind.
\<close>

definition mcp__mail_read :: "directory \<Rightarrow> string \<Rightarrow> py_error + (pyval \<times> directory)" where
  "mcp__mail_read fs message_id =
     py_bind (load_message fs message_id) (\<lambda>loaded.
       case loaded of
         None \<Rightarrow> Inr (PDict [(''error'', PStr (''Message '' @ message_id @ '' not found''))], fs)
       | Some message \<Rightarrow>
           if \<not> truthy message
           then Inr (PDict [(''error'', PStr (''Message '' @ message_id @ '' not found''))], fs)
           else py_bind (setitem message ''read'' (PBool True)) (\<lambda>message'.
                py_bind (save_message fs message') (\<lambda>fs'. Inr (message', fs'))))"

definition list_all_summary :: "pyval \<Rightarrow> py_error + pyval" where
  "list_all_summary message =
     py_bind (getitem message ''id'') (\<lambda>i.
     py_bind (getitem message ''from'') (\<lambda>f.
     py_bind (getitem message ''to'') (\<lambda>to.
     py_bind (getitem message ''subject'') (\<lambda>s.
     py_bind (getitem message ''timestamp'') (\<lambda>t.
     py_bind (get_default message ''read'' (PBool False)) (\<lambda>r.
       Inr (PDict [(''id'', i), (''from'', f), (''to'', to), (''subject'', s),
                   (''timestamp'', t), (''read'', r)])))))))"

definition mcp__mail_list_all :: "directory \<Rightarrow> py_error + pyval list" where
  "mcp__mail_list_all fs = py_bind (list_messages fs) (py_mapM list_all_summary)"

section \<open>The process tool server\<close>

text \<open>
  The process directory holds the metadata files; the log directory below it holds one log per
  process, given here by its text.
\<close>

record store =
  meta :: directory
  logs :: "(string \<times> string) list"

definition get_process_path :: "string \<Rightarrow> string" where
  "get_process_path process_id = ''proc_'' @ process_id @ ''.json''"

definition get_log_path :: "string \<Rightarrow> string" where
  "get_log_path process_id = process_id @ ''.log''"

definition generate_process_id :: "nat \<Rightarrow> string" where
  "generate_process_id uuid4 = uuid_str uuid4"

definition save_process :: "directory \<Rightarrow> pyval \<Rightarrow> py_error + directory" where
  "save_process fs process_data =
     py_bind (getitem process_data ''id'') (\<lambda>i. py_bind (py_str i) (\<lambda>process_id.
       Inr (AList.update (get_process_path process_id) (Parsed process_data) fs)))"

definition load_process :: "directory \<Rightarrow> string \<Rightarrow> py_error + pyval option" where
  "load_process fs process_id =
     (case map_of fs (get_process_path process_id) of
        None \<Rightarrow> Inr None
      | Some f \<Rightarrow> try_load f)"

text \<open>
  The calls into the operating system that an operation makes are returned in order, so that a
  property can say which signals and probes took place.
\<close>

datatype signal = SIG0 | SIGTERM | SIGKILL

datatype os_call = Kill int signal | Getpgid int | Killpg int signal | Sleep nat

text \<open>
  A Python object passed where the system call expects a process identifier (a C \<^verbatim>\<open>int\<close>):
  an integer out of range raises \<^verbatim>\<open>OverflowError\<close>, an object that is no integer
  \<^verbatim>\<open>TypeError\<close>; neither is an \<^verbatim>\<open>OSError\<close>.
\<close>

fun pid_arg :: "pyval \<Rightarrow> py_error + int" where
  "pid_arg (PInt i) = (if - (2 ^ 31) \<le> i \<and> i < 2 ^ 31 then Inr i else Inl OverflowError)"
| "pid_arg (PBool b) = Inr (if b then 1 else 0)"
| "pid_arg _ = Inl TypeError"

text \<open>
  \<open>alive pid\<close> tells whether \<^verbatim>\<open>os.kill(pid, 0)\<close> returns; when it does not, it raises an
  \<^verbatim>\<open>OSError\<close>.
\<close>

definition update_process_status ::
  "(int \<Rightarrow> bool) \<Rightarrow> pyval \<Rightarrow> py_error + (pyval \<times> os_call list)" where
  "update_process_status alive process_data =
     py_bind (get_default process_data ''pid'' PNone) (\<lambda>pid.
       if \<not> truthy pid then
         py_bind (setitem process_data ''status'' (PStr ''unknown'')) (\<lambda>p. Inr (p, []))
       else
         py_bind (pid_arg pid) (\<lambda>n.
         py_bind (setitem process_data ''status''
                    (PStr (if alive n then ''running'' else ''stopped''))) (\<lambda>p.
           Inr (p, [Kill n SIG0]))))"

definition is_process_running :: "(int \<Rightarrow> bool) \<Rightarrow> int \<Rightarrow> bool" where
  "is_process_running alive pid = alive pid"

fun list_loop ::
  "(int \<Rightarrow> bool) \<Rightarrow> file_state list \<Rightarrow> py_error + (pyval list \<times> os_call list)" where
  "list_loop alive [] = Inr ([], [])"
| "list_loop alive (f # fs) =
     py_bind (try_load f) (\<lambda>r.
       case r of
         None \<Rightarrow> list_loop alive fs
       | Some process_data \<Rightarrow>
           py_bind (update_process_status alive process_data) (\<lambda>(p, c).
           py_bind (list_loop alive fs) (\<lambda>(ps, cs). Inr (p # ps, c @ cs))))"

definition list_processes ::
  "(int \<Rightarrow> bool) \<Rightarrow> directory \<Rightarrow> py_error + (pyval list \<times> os_call list)" where
  "list_processes alive fs =
     py_bind (list_loop alive (map snd (glob ''proc_'' ''.json'' fs))) (\<lambda>(processes, calls).
     py_bind (sort_newest_first ''started_at'' processes) (\<lambda>sorted. Inr (sorted, calls)))"

text \<open>
  What the \<^verbatim>\<open>try\<close> block of \<^verbatim>\<open>mcp__process_start\<close> meets: opening the log file fails,
  \<^verbatim>\<open>subprocess.Popen\<close> fails (each with the text of its exception), or the process is spawned
  with a process identifier.
\<close>

datatype spawn_outcome = LogFailed string | PopenFailed string | Spawned int

text \<open>
  The four arguments are strings for a caller of the tool; \<^verbatim>\<open>mcp__process_restart\<close> passes
  what it finds in the stored record, so they are Python values here. The record written has the
  string \<open>process_id\<close> as its \<open>id\<close>, which \<^verbatim>\<open>save_process\<close> writes to the path of
  \<open>process_id\<close>.
\<close>

definition mcp__process_start ::
  "nat \<Rightarrow> string \<Rightarrow> spawn_outcome \<Rightarrow> store \<Rightarrow> pyval \<Rightarrow> pyval \<Rightarrow> pyval \<Rightarrow> pyval \<Rightarrow>
     string \<times> store" where
  "mcp__process_start uuid4 now outcome st command cwd name owner =
     (let process_id = generate_process_id uuid4;
          timestamp = now @ ''Z'';
          log_file = get_log_path process_id
      in case outcome of
           LogFailed e \<Rightarrow> (''Error starting process: '' @ e, st)
         | PopenFailed e \<Rightarrow>
             (''Error starting process: '' @ e, st\<lparr>logs := AList.update log_file [] (logs st)\<rparr>)
         | Spawned pid \<Rightarrow>
             (let process_data = PDict
                    [(''id'', PStr process_id), (''name'', name), (''owner'', owner),
                     (''command'', command), (''cwd'', cwd), (''pid'', PInt pid),
                     (''status'', PStr ''running''), (''started_at'', PStr timestamp),
                     (''log_file'', PStr (''/workspaces/.processes/logs/'' @ log_file))]
              in (process_id,
                  st\<lparr>logs := AList.update log_file [] (logs st),
                     meta := AList.update (get_process_path process_id) (Parsed process_data)
                               (meta st)\<rparr>)))"

definition process_summary :: "pyval \<Rightarrow> py_error + pyval" where
  "process_summary process =
     py_bind (getitem process ''id'') (\<lambda>i.
     py_bind (getitem process ''name'') (\<lambda>n.
     py_bind (getitem process ''owner'') (\<lambda>ow.
     py_bind (getitem process ''status'') (\<lambda>s.
     py_bind (getitem process ''started_at'') (\<lambda>t.
     py_bind (get_default process ''pid'' PNone) (\<lambda>p.
       Inr (PDict [(''id'', i), (''name'', n), (''owner'', ow), (''status'', s),
                   (''started_at'', t), (''pid'', p)])))))))"

text \<open>\<^verbatim>\<open>[p for p in processes if p.get("owner") == owner]\<close>\<close>

fun owned_by :: "string \<Rightarrow> pyval list \<Rightarrow> py_error + pyval list" where
  "owned_by owner [] = Inr []"
| "owned_by owner (p # ps) =
     py_bind (get_default p ''owner'' PNone) (\<lambda>ow.
     py_bind (owned_by owner ps) (\<lambda>rest. Inr (if ow = PStr owner then p # rest else rest)))"

definition mcp__process_list ::
  "(int \<Rightarrow> bool) \<Rightarrow> directory \<Rightarrow> string option \<Rightarrow> py_error + (pyval list \<times> os_call list)" where
  "mcp__process_list alive fs owner =
     py_bind (list_processes alive fs) (\<lambda>(processes, calls).
     py_bind (case owner of
                None \<Rightarrow> Inr processes
              | Some ow \<Rightarrow> if ow = [] then Inr processes else owned_by ow processes)
       (\<lambda>selected.
     py_bind (py_mapM process_summary selected) (\<lambda>summaries. Inr (summaries, calls))))"

text \<open>
  What the operating system answers during \<^verbatim>\<open>mcp__process_stop\<close>: the process group found
  by each \<^verbatim>\<open>os.getpgid(pid)\<close> (\<open>None\<close> when it raises \<^verbatim>\<open>OSError\<close>), whether each
  \<^verbatim>\<open>os.killpg\<close> returns rather than raising \<^verbatim>\<open>OSError\<close>, for which process identifiers
  \<^verbatim>\<open>os.kill(pid, 0)\<close> returns after the two seconds, and the text of
  \<^verbatim>\<open>datetime.utcnow().isoformat()\<close>.
\<close>

record stop_env =
  pgid_term :: "int option"
  term_ok :: bool
  probe :: "int \<Rightarrow> bool"
  pgid_kill :: "int option"
  kill_ok :: bool
  stop_time :: string

text \<open>
  The body of the \<^verbatim>\<open>try\<close> block up to the status update: \<open>True\<close> when it gets through,
  \<open>False\<close> when an \<^verbatim>\<open>OSError\<close> sends control to the handler, with the calls made.
\<close>

definition stop_signals :: "stop_env \<Rightarrow> int \<Rightarrow> bool \<times> os_call list" where
  "stop_signals env pid =
     (case pgid_term env of
        None \<Rightarrow> (False, [Getpgid pid])
      | Some g \<Rightarrow>
          if \<not> term_ok env then (False, [Getpgid pid, Killpg g SIGTERM])
          else if \<not> is_process_running (probe env) pid then
            (True, [Getpgid pid, Killpg g SIGTERM, Sleep 2, Kill pid SIG0])
          else
            (case pgid_kill env of
               None \<Rightarrow>
                 (False, [Getpgid pid, Killpg g SIGTERM, Sleep 2, Kill pid SIG0, Getpgid pid])
             | Some g' \<Rightarrow>
                 (kill_ok env,
                  [Getpgid pid, Killpg g SIGTERM, Sleep 2, Kill pid SIG0, Getpgid pid,
                   Killpg g' SIGKILL])))"

definition mcp__process_stop ::
  "stop_env \<Rightarrow> directory \<Rightarrow> string \<Rightarrow> py_error + (bool \<times> directory \<times> os_call list)" where
  "mcp__process_stop env fs process_id =
     py_bind (load_process fs process_id) (\<lambda>loaded.
       case loaded of
         None \<Rightarrow> Inr (False, fs, [])
       | Some process_data \<Rightarrow>
           if \<not> truthy process_data then Inr (False, fs, [])
           else
             py_bind (get_default process_data ''pid'' PNone) (\<lambda>pid.
               if \<not> truthy pid then Inr (False, fs, [])
               else
                 py_bind (pid_arg pid) (\<lambda>n.
                   let (through, calls) = stop_signals env n in
                   if through then
                     py_bind (setitem process_data ''status'' (PStr ''stopped'')) (\<lambda>p1.
                     py_bind (setitem p1 ''stopped_at'' (PStr (stop_time env @ ''Z''))) (\<lambda>p2.
                     py_bind (save_process fs p2) (\<lambda>fs'. Inr (True, fs', calls))))
                   else
                     py_bind (setitem process_data ''status'' (PStr ''stopped'')) (\<lambda>p1.
                     py_bind (save_process fs p1) (\<lambda>fs'. Inr (True, fs', calls))))))"

definition startswith :: "string \<Rightarrow> string \<Rightarrow> bool" where
  "startswith s p \<longleftrightarrow> take (length p) s = p"

definition mcp__process_restart ::
  "stop_env \<Rightarrow> nat \<Rightarrow> string \<Rightarrow> spawn_outcome \<Rightarrow> store \<Rightarrow> string \<Rightarrow>
     py_error + (bool \<times> store \<times> os_call list)" where
  "mcp__process_restart env uuid4 now outcome st process_id =
     py_bind (load_process (meta st) process_id) (\<lambda>loaded.
       case loaded of
         None \<Rightarrow> Inr (False, st, [])
       | Some process_data \<Rightarrow>
           if \<not> truthy process_data then Inr (False, st, [])
           else
             py_bind (mcp__process_stop env (meta st) process_id) (\<lambda>(stopped, fs', calls).
               if \<not> stopped then Inr (False, st\<lparr>meta := fs'\<rparr>, calls)
               else
                 py_bind (getitem process_data ''command'') (\<lambda>command.
                 py_bind (getitem process_data ''cwd'') (\<lambda>cwd.
                 py_bind (getitem process_data ''name'') (\<lambda>name.
                 py_bind (getitem process_data ''owner'') (\<lambda>owner.
                   let (new_process_id, st') =
                         mcp__process_start uuid4 now outcome (st\<lparr>meta := fs'\<rparr>)
                           command cwd name owner
                   in Inr (\<not> startswith new_process_id ''Error'', st', calls)))))))"

fun cleanup_loop ::
  "(string \<times> string) list \<Rightarrow> pyval list \<Rightarrow> directory \<Rightarrow> int \<Rightarrow> py_error + (directory \<times> int)" where
  "cleanup_loop lg [] fs cleaned_count = Inr (fs, cleaned_count)"
| "cleanup_loop lg (process # rest) fs cleaned_count =
     py_bind (getitem process ''status'') (\<lambda>status.
       if status = PStr ''stopped'' then
         py_bind (getitem process ''id'') (\<lambda>i. py_bind (py_str i) (\<lambda>process_id.
           let process_path = get_process_path process_id;
               fs' = (if map_of fs process_path \<noteq> None then AList.delete process_path fs
                      else fs);
               log_path = get_log_path process_id;
               lg' = (if map_of lg log_path \<noteq> None then lg else lg)
           in cleanup_loop lg' rest fs' (cleaned_count + 1)))
       else cleanup_loop lg rest fs cleaned_count)"

definition mcp__process_cleanup ::
  "(int \<Rightarrow> bool) \<Rightarrow> store \<Rightarrow> py_error + (pyval \<times> store \<times> os_call list)" where
  "mcp__process_cleanup alive st =
     py_bind (list_processes alive (meta st)) (\<lambda>(processes, calls).
     py_bind (cleanup_loop (logs st) processes (meta st) 0) (\<lambda>(fs', cleaned_count).
       Inr (PDict [(''cleaned_processes'', PInt cleaned_count),
                   (''remaining_processes'', PInt (int (length processes) - cleaned_count))],
            st\<lparr>meta := fs'\<rparr>, calls)))"

section \<open>The configuration module\<close>

text \<open>
  The class attributes of \<^verbatim>\<open>Config\<close>, with the types of their annotations. An
  \<^verbatim>\<open>Optional[str]\<close> is a \<open>string option\<close>.
\<close>

record config =
  PROJECT_NAME :: string
  ENVIRONMENT :: string
  API_HOST :: string
  API_PORT :: int
  API_WORKERS :: int
  SECRET_KEY :: string
  API_TOKENS :: "string list"
  CORS_ORIGINS :: "string list"
  TELEMETRY_ENABLED :: bool
  OTEL_ENDPOINT :: string
  OTEL_SERVICE_NAME :: string
  OTEL_SERVICE_NAMESPACE :: string
  HONEYCOMB_API_KEY :: string
  HONEYCOMB_DATASET :: string
  HONEYCOMB_API_ENDPOINT :: string
  MAX_CONCURRENT_AGENTS :: int
  AGENT_TIMEOUT :: int
  AGENT_MEMORY_LIMIT_MB :: int
  MAX_FILE_SIZE_MB :: int
  ALLOWED_FILE_EXTENSIONS :: "string list"
  LOG_LEVEL :: string
  LOG_FORMAT :: string
  LOG_FILE :: "string option"
  DATABASE_URL :: "string option"
  DATABASE_POOL_SIZE :: int
  DATABASE_MAX_OVERFLOW :: int
  CACHE_TYPE :: string
  CACHE_REDIS_URL :: "string option"
  CACHE_DEFAULT_TIMEOUT :: int
  FEATURE_AUTO_SAVE :: bool
  FEATURE_COLLABORATIVE_EDITING :: bool
  FEATURE_ADVANCED_ANALYTICS :: bool

datatype log_record = Warning string | Info string

text \<open>\<^verbatim>\<open>sep.join(xs)\<close>\<close>

fun join :: "string \<Rightarrow> string list \<Rightarrow> string" where
  "join sep [] = []"
| "join sep [x] = x"
| "join sep (x # y # ys) = x @ sep @ join sep (y # ys)"

definition valid_environments :: "string list" where
  "valid_environments = [''development'', ''staging'', ''production'', ''test'']"

definition valid_log_levels :: "string list" where
  "valid_log_levels = [''DEBUG'', ''INFO'', ''WARNING'', ''ERROR'', ''CRITICAL'']"

definition valid_cache_types :: "string list" where
  "valid_cache_types = [''memory'', ''redis'', ''memcached'']"

text \<open>The list \<^verbatim>\<open>errors\<close> when \<^verbatim>\<open>validate\<close> reaches its last test.\<close>

definition validation_errors :: "config \<Rightarrow> string list" where
  "validation_errors cls =
     (if API_PORT cls < 1 \<or> API_PORT cls > 65535
      then [''Invalid API_PORT: '' @ str_int (API_PORT cls)] else []) @
     (if API_WORKERS cls < 1
      then [''API_WORKERS must be at least 1, got '' @ str_int (API_WORKERS cls)] else []) @
     (if ENVIRONMENT cls \<notin> set valid_environments
      then [''ENVIRONMENT must be one of ['development', 'staging', 'production', 'test'], got ''
              @ ENVIRONMENT cls] else []) @
     (if LOG_LEVEL cls \<notin> set valid_log_levels
      then [''LOG_LEVEL must be one of ['DEBUG', 'INFO', 'WARNING', 'ERROR', 'CRITICAL'], got ''
              @ LOG_LEVEL cls] else []) @
     (if MAX_FILE_SIZE_MB cls < 1 \<or> MAX_FILE_SIZE_MB cls > 1000
      then [''MAX_FILE_SIZE_MB must be between 1 and 1000, got '' @ str_int (MAX_FILE_SIZE_MB cls)]
      else []) @
     (if CACHE_TYPE cls \<notin> set valid_cache_types
      then [''CACHE_TYPE must be one of ['memory', 'redis', 'memcached'], got '' @ CACHE_TYPE cls]
      else []) @
     (if CACHE_TYPE cls = ''redis'' \<and> (CACHE_REDIS_URL cls = None \<or> CACHE_REDIS_URL cls = Some [])
      then [''CACHE_REDIS_URL must be set when using Redis cache''] else [])"

text \<open>\<^verbatim>\<open>Config.validate\<close> returns the records it logged and either nothing or the exception raised.\<close>

definition validate :: "config \<Rightarrow> log_record list \<times> (py_error + unit)" where
  "validate cls =
     (let warnings =
            (if TELEMETRY_ENABLED cls \<and> HONEYCOMB_API_KEY cls = []
             then [Warning ''Telemetry is enabled but HONEYCOMB_API_KEY is not set''] else []);
          errors = validation_errors cls
      in if errors \<noteq> [] then
           (warnings,
            Inl (ValueError (''Configuration validation failed:'' @ [CHR 0x0A] @
                             join [CHR 0x0A] (map (\<lambda>e. ''  - '' @ e) errors))))
         else
           (warnings @
              [Info (''Configuration validated successfully for '' @ ENVIRONMENT cls @
                     '' environment'')],
            Inr ()))"

text \<open>
  \<^verbatim>\<open>str.isupper\<close>, \<^verbatim>\<open>str.lower\<close> and \<^verbatim>\<open>str.startswith\<close> on attribute names, which are
  ASCII.
\<close>

definition upper_letters :: string where
  "upper_letters = ''ABCDEFGHIJKLMNOPQRSTUVWXYZ''"

definition lower_letters :: string where
  "lower_letters = ''abcdefghijklmnopqrstuvwxyz''"

definition isupper :: "string \<Rightarrow> bool" where
  "isupper s \<longleftrightarrow> (\<exists>c \<in> set s. c \<in> set upper_letters) \<and> (\<forall>c \<in> set s. c \<notin> set lower_letters)"

definition lower :: "string \<Rightarrow> string" where
  "lower s = map (\<lambda>c. case map_of (zip upper_letters lower_letters) c of
                        None \<Rightarrow> c | Some l \<Rightarrow> l) s"

text \<open>
  \<^verbatim>\<open>any(sensitive in key.lower() for sensitive in ["key", "secret", "password", "token"])\<close>
\<close>

definition sensitive :: "string \<Rightarrow> bool" where
  "sensitive key \<longleftrightarrow>
     list_ex (\<lambda>w. substring w (lower key)) [''key'', ''secret'', ''password'', ''token'']"

text \<open>The value stored for a sensitive key.\<close>

fun redact :: "pyval \<Rightarrow> pyval" where
  "redact (PStr s) = (if s \<noteq> [] then PStr ''***REDACTED***'' else PStr s)"
| "redact (PList xs) =
     (if xs \<noteq> []
      then PList (map (\<lambda>i. PStr (''***REDACTED'' @ str_int (int i) @ ''***'')) [0..<length xs])
      else PList xs)"
| "redact v = v"

text \<open>
  The loop of \<^verbatim>\<open>Config.to_dict\<close> over \<^verbatim>\<open>dir(cls)\<close>, given as the attribute names with
  their values.
\<close>

definition to_dict_step :: "(string \<times> pyval) list \<Rightarrow> string \<times> pyval \<Rightarrow> (string \<times> pyval) list" where
  "to_dict_step config_dict kv =
     (case kv of (key, value) \<Rightarrow>
        if isupper key \<and> \<not> startswith key ''_'' then
          AList.update key (if sensitive key then redact value else value) config_dict
        else config_dict)"

definition to_dict_attrs :: "(string \<times> pyval) list \<Rightarrow> (string \<times> pyval) list" where
  "to_dict_attrs attrs = foldl to_dict_step [] attrs"

fun opt_str :: "string option \<Rightarrow> pyval" where
  "opt_str None = PNone"
| "opt_str (Some s) = PStr s"

text \<open>
  \<^verbatim>\<open>dir(cls)\<close> in its sorted order, with the value of each attribute. The methods of the class
  and the attributes every class has follow the settings in that order; their names are not
  upper case and they are left out here.
\<close>

definition dir_Config :: "config \<Rightarrow> (string \<times> pyval) list" where
  "dir_Config cls =
     [(''AGENT_MEMORY_LIMIT_MB'', PInt (AGENT_MEMORY_LIMIT_MB cls)),
      (''AGENT_TIMEOUT'', PInt (AGENT_TIMEOUT cls)),
      (''ALLOWED_FILE_EXTENSIONS'', PList (map PStr (ALLOWED_FILE_EXTENSIONS cls))),
      (''API_HOST'', PStr (API_HOST cls)),
      (''API_PORT'', PInt (API_PORT cls)),
      (''API_TOKENS'', PList (map PStr (API_TOKENS cls))),
      (''API_WORKERS'', PInt (API_WORKERS cls)),
      (''CACHE_DEFAULT_TIMEOUT'', PInt (CACHE_DEFAULT_TIMEOUT cls)),
      (''CACHE_REDIS_URL'', opt_str (CACHE_REDIS_URL cls)),
      (''CACHE_TYPE'', PStr (CACHE_TYPE cls)),
      (''CORS_ORIGINS'', PList (map PStr (CORS_ORIGINS cls))),
      (''DATABASE_MAX_OVERFLOW'', PInt (DATABASE_MAX_OVERFLOW cls)),
      (''DATABASE_POOL_SIZE'', PInt (DATABASE_POOL_SIZE cls)),
      (''DATABASE_URL'', opt_str (DATABASE_URL cls)),
      (''ENVIRONMENT'', PStr (ENVIRONMENT cls)),
      (''FEATURE_ADVANCED_ANALYTICS'', PBool (FEATURE_ADVANCED_ANALYTICS cls)),
      (''FEATURE_AUTO_SAVE'', PBool (FEATURE_AUTO_SAVE cls)),
      (''FEATURE_COLLABORATIVE_EDITING'', PBool (FEATURE_COLLABORATIVE_EDITING cls)),
      (''HONEYCOMB_API_ENDPOINT'', PStr (HONEYCOMB_API_ENDPOINT cls)),
      (''HONEYCOMB_API_KEY'', PStr (HONEYCOMB_API_KEY cls)),
      (''HONEYCOMB_DATASET'', PStr (HONEYCOMB_DATASET cls)),
      (''LOG_FILE'', opt_str (LOG_FILE cls)),
      (''LOG_FORMAT'', PStr (LOG_FORMAT cls)),
      (''LOG_LEVEL'', PStr (LOG_LEVEL cls)),
      (''MAX_CONCURRENT_AGENTS'', PInt (MAX_CONCURRENT_AGENTS cls)),
      (''MAX_FILE_SIZE_MB'', PInt (MAX_FILE_SIZE_MB cls)),
      (''OTEL_ENDPOINT'', PStr (OTEL_ENDPOINT cls)),
      (''OTEL_SERVICE_NAME'', PStr (OTEL_SERVICE_NAME cls)),
      (''OTEL_SERVICE_NAMESPACE'', PStr (OTEL_SERVICE_NAMESPACE cls)),
      (''PROJECT_NAME'', PStr (PROJECT_NAME cls)),
      (''SECRET_KEY'', PStr (SECRET_KEY cls)),
      (''TELEMETRY_ENABLED'', PBool (TELEMETRY_ENABLED cls))]"

definition to_dict :: "config \<Rightarrow> (string \<times> pyval) list" where
  "to_dict cls = to_dict_attrs (dir_Config cls)"

text \<open>
  The seven rules of the specification, each as the test that it is violated, and the line
  \<^verbatim>\<open>validate\<close> reports for each.
\<close>

definition rule_violations :: "config \<Rightarrow> bool list" where
  "rule_violations cls =
     [\<not> (1 \<le> API_PORT cls \<and> API_PORT cls \<le> 65535),
      \<not> (1 \<le> API_WORKERS cls),
      ENVIRONMENT cls \<notin> {''development'', ''staging'', ''production'', ''test''},
      LOG_LEVEL cls \<notin> {''DEBUG'', ''INFO'', ''WARNING'', ''ERROR'', ''CRITICAL''},
      \<not> (1 \<le> MAX_FILE_SIZE_MB cls \<and> MAX_FILE_SIZE_MB cls \<le> 1000),
      CACHE_TYPE cls \<notin> {''memory'', ''redis'', ''memcached''},
      CACHE_TYPE cls = ''redis'' \<and> (CACHE_REDIS_URL cls = None \<or> CACHE_REDIS_URL cls = Some [])]"

definition rule_messages :: "config \<Rightarrow> string list" where
  "rule_messages cls =
     [''Invalid API_PORT: '' @ str_int (API_PORT cls),
      ''API_WORKERS must be at least 1, got '' @ str_int (API_WORKERS cls),
      ''ENVIRONMENT must be one of ['development', 'staging', 'production', 'test'], got ''
        @ ENVIRONMENT cls,
      ''LOG_LEVEL must be one of ['DEBUG', 'INFO', 'WARNING', 'ERROR', 'CRITICAL'], got ''
        @ LOG_LEVEL cls,
      ''MAX_FILE_SIZE_MB must be between 1 and 1000, got '' @ str_int (MAX_FILE_SIZE_MB cls),
      ''CACHE_TYPE must be one of ['memory', 'redis', 'memcached'], got '' @ CACHE_TYPE cls,
      ''CACHE_REDIS_URL must be set when using Redis cache'']"

text \<open>The class as it loads from an empty environment.\<close>

definition default_config :: config where
  "default_config =
     \<lparr>PROJECT_NAME = ''coding-agent'', ENVIRONMENT = ''development'', API_HOST = ''0.0.0.0'',
      API_PORT = 8000, API_WORKERS = 4, SECRET_KEY = [], API_TOKENS = [],
      CORS_ORIGINS = [''*''], TELEMETRY_ENABLED = True,
      OTEL_ENDPOINT = ''http://localhost:4317'', OTEL_SERVICE_NAME = ''coding-agent'',
      OTEL_SERVICE_NAMESPACE = ''coding-agent'', HONEYCOMB_API_KEY = [],
      HONEYCOMB_DATASET = ''coding-agent'', HONEYCOMB_API_ENDPOINT = ''api.honeycomb.io'',
      MAX_CONCURRENT_AGENTS = 5, AGENT_TIMEOUT = 3600, AGENT_MEMORY_LIMIT_MB = 2048,
      MAX_FILE_SIZE_MB = 100,
      ALLOWED_FILE_EXTENSIONS =
        [''.py'', ''.js'', ''.ts'', ''.jsx'', ''.tsx'', ''.java'', ''.go'', ''.rs'', ''.cpp'',
         ''.c'', ''.h'', ''.hpp'', ''.cs'', ''.rb'', ''.php'', ''.swift'', ''.kt'', ''.scala'',
         ''.r'', ''.m'', ''.sh'', ''.bash'', ''.zsh'', ''.fish'', ''.ps1'', ''.yml'',
         ''.yaml'', ''.json'', ''.xml'', ''.toml'', ''.ini'', ''.cfg'', ''.conf'', ''.md'',
         ''.txt'', ''.rst'', ''.adoc'', ''.tex'', ''.html'', ''.css'', ''.scss'', ''.sass'',
         ''.less'', ''.sql'', ''.dockerfile'', ''.makefile'', ''.cmake'', ''.gradle'',
         ''.maven''],
      LOG_LEVEL = ''INFO'', LOG_FORMAT = ''json'', LOG_FILE = None, DATABASE_URL = None,
      DATABASE_POOL_SIZE = 10, DATABASE_MAX_OVERFLOW = 20, CACHE_TYPE = ''memory'',
      CACHE_REDIS_URL = None, CACHE_DEFAULT_TIMEOUT = 300, FEATURE_AUTO_SAVE = True,
      FEATURE_COLLABORATIVE_EDITING = False, FEATURE_ADVANCED_ANALYTICS = False\<rparr>"

section \<open>The stores that the listings are stated for\<close>

text \<open>The value of a field of a record, or the default when the record has no such field.\<close>

definition value_of :: "pyval \<Rightarrow> string \<Rightarrow> pyval \<Rightarrow> pyval" where
  "value_of x k dflt =
     (case x of PDict d \<Rightarrow> (case map_of d k of None \<Rightarrow> dflt | Some v \<Rightarrow> v) | _ \<Rightarrow> dflt)"

text \<open>
  The records a listing is about: those of the files of the directory that match the pattern
  and parse, in the order of the directory.
\<close>

fun parsed_value :: "file_state \<Rightarrow> pyval option" where
  "parsed_value (Parsed v) = Some v"
| "parsed_value _ = None"

definition listed :: "string \<Rightarrow> string \<Rightarrow> directory \<Rightarrow> pyval list" where
  "listed pre suf fs = List.map_filter (\<lambda>nf. parsed_value (snd nf)) (glob pre suf fs)"

text \<open>
  The text a record is ordered by, the empty string when the field is missing, and the order
  newest first: along the list that text never increases.
\<close>

definition sort_field :: "string \<Rightarrow> pyval \<Rightarrow> string" where
  "sort_field field x = the_str (value_of x field (PStr []))"

definition newest_first :: "string \<Rightarrow> pyval list \<Rightarrow> bool" where
  "newest_first field xs = sorted_wrt (\<lambda>a b. sort_field field b \<le> sort_field field a) xs"

text \<open>
  Every file that matches the pattern parses to a record with the property \<open>P\<close>, is not JSON,
  or cannot be read; none is undecodable.
\<close>

definition files_ok :: "(pyval \<Rightarrow> bool) \<Rightarrow> string \<Rightarrow> string \<Rightarrow> directory \<Rightarrow> bool" where
  "files_ok P pre suf fs =
     list_all (\<lambda>nf. case snd nf of Parsed v \<Rightarrow> P v | Undecodable \<Rightarrow> False | _ \<Rightarrow> True)
       (glob pre suf fs)"

text \<open>A dictionary whose field, when it is there, is a string.\<close>

definition sortable :: "string \<Rightarrow> pyval \<Rightarrow> bool" where
  "sortable field x =
     (case x of PDict d \<Rightarrow> (case map_of d field of None \<Rightarrow> True | Some v \<Rightarrow> is_str v)
      | _ \<Rightarrow> False)"

text \<open>
  A message as the summaries need it: it has the fields they read by subscript, its timestamp
  is a string and its recipients are a list.
\<close>

definition message_ok :: "pyval \<Rightarrow> bool" where
  "message_ok m =
     (case m of
        PDict d \<Rightarrow>
          map_of d ''id'' \<noteq> None \<and> map_of d ''from'' \<noteq> None \<and> map_of d ''subject'' \<noteq> None \<and>
          (case map_of d ''timestamp'' of None \<Rightarrow> False | Some v \<Rightarrow> is_str v) \<and>
          (case map_of d ''to'' of None \<Rightarrow> False | Some v \<Rightarrow> is_list v)
      | _ \<Rightarrow> False)"

text \<open>
  The process identifier of a record is missing or false, or it is one the system calls accept.
\<close>

definition pid_ok :: "pyval \<Rightarrow> bool" where
  "pid_ok p =
     (let pid = value_of p ''pid'' PNone
      in \<not> truthy pid \<or> (case pid_arg pid of Inr n \<Rightarrow> True | Inl e \<Rightarrow> False))"

definition process_sortable :: "pyval \<Rightarrow> bool" where
  "process_sortable p \<longleftrightarrow> sortable ''started_at'' p \<and> pid_ok p"

definition process_ok :: "pyval \<Rightarrow> bool" where
  "process_ok p =
     (case p of
        PDict d \<Rightarrow>
          map_of d ''id'' \<noteq> None \<and> map_of d ''name'' \<noteq> None \<and> map_of d ''owner'' \<noteq> None \<and>
          (case map_of d ''started_at'' of None \<Rightarrow> False | Some v \<Rightarrow> is_str v) \<and>
          pid_ok p
      | _ \<Rightarrow> False)"

text \<open>
  A metadata file that parses holds a record whose \<open>id\<close> is the identifier in the file's name,
  as \<^verbatim>\<open>save_process\<close> writes it.
\<close>

definition held_under_id :: "string \<times> file_state \<Rightarrow> bool" where
  "held_under_id nf =
     (case snd nf of
        Parsed v \<Rightarrow>
          (case getitem v ''id'' of Inr (PStr i) \<Rightarrow> fst nf = get_process_path i | _ \<Rightarrow> False)
      | _ \<Rightarrow> True)"

text \<open>
  The effective status of a record in the words of the specification: with a process identifier
  present, \<open>running\<close> or \<open>stopped\<close> as the liveness probe tells; without one, \<open>unknown\<close>.
\<close>

definition effective_status :: "(int \<Rightarrow> bool) \<Rightarrow> pyval \<Rightarrow> string" where
  "effective_status alive p =
     (let pid = value_of p ''pid'' PNone
      in if \<not> truthy pid then ''unknown''
         else (case pid_arg pid of
                 Inr n \<Rightarrow> if alive n then ''running'' else ''stopped''
               | Inl e \<Rightarrow> ''unknown''))"

text \<open>The record as a listing shows it, and the probes a listing makes for it.\<close>

definition with_status :: "(int \<Rightarrow> bool) \<Rightarrow> pyval \<Rightarrow> pyval" where
  "with_status alive p =
     (case p of PDict d \<Rightarrow> PDict (AList.update ''status'' (PStr (effective_status alive p)) d)
      | _ \<Rightarrow> p)"

definition probes_of :: "pyval \<Rightarrow> os_call list" where
  "probes_of p =
     (let pid = value_of p ''pid'' PNone
      in if \<not> truthy pid then []
         else (case pid_arg pid of Inr n \<Rightarrow> [Kill n SIG0] | Inl e \<Rightarrow> []))"

text \<open>
  The summaries of a record with every field read by subscript in place, and whether a message
  with a list of recipients is addressed to an agent.
\<close>

definition inbox_entry :: "pyval \<Rightarrow> pyval" where
  "inbox_entry m =
     PDict [(''id'', value_of m ''id'' PNone), (''from'', value_of m ''from'' PNone),
            (''subject'', value_of m ''subject'' PNone),
            (''timestamp'', value_of m ''timestamp'' PNone),
            (''read'', value_of m ''read'' (PBool False))]"

definition list_all_entry :: "pyval \<Rightarrow> pyval" where
  "list_all_entry m =
     PDict [(''id'', value_of m ''id'' PNone), (''from'', value_of m ''from'' PNone),
            (''to'', value_of m ''to'' PNone), (''subject'', value_of m ''subject'' PNone),
            (''timestamp'', value_of m ''timestamp'' PNone),
            (''read'', value_of m ''read'' (PBool False))]"

definition process_entry :: "pyval \<Rightarrow> pyval" where
  "process_entry p =
     PDict [(''id'', value_of p ''id'' PNone), (''name'', value_of p ''name'' PNone),
            (''owner'', value_of p ''owner'' PNone), (''status'', value_of p ''status'' PNone),
            (''started_at'', value_of p ''started_at'' PNone),
            (''pid'', value_of p ''pid'' PNone)]"

definition addressed_to :: "string \<Rightarrow> pyval \<Rightarrow> bool" where
  "addressed_to r m =
     (case value_of m ''to'' (PList []) of PList xs \<Rightarrow> PStr r \<in> set xs | _ \<Rightarrow> False)"

section \<open>Properties of the mail tool server\<close>

lemma py_bind_simps [simp]:
  "py_bind (Inl e) f = Inl e"
  "py_bind (Inr x) f = f x"
  by (simp_all add: py_bind_def)

text \<open>
  C3. Let the file of message \<open>message_id\<close> exist and parse to a message record carrying that
  identifier. Then \<^verbatim>\<open>mcp__mail_read\<close> returns the record with \<open>read\<close> set to true and
  writes exactly that record to the message's file; every field other than \<open>read\<close> (so \<open>id\<close>,
  \<open>from\<close>, \<open>to\<close>, \<open>subject\<close>, \<open>body\<close> and \<open>timestamp\<close>) is as before, no other file changes,
  and reading the same identifier a second time returns the record with \<open>read\<close> true again.
\<close>

theorem mail_read_marks_read:
  assumes stored: "map_of fs (get_message_path message_id) = Some (Parsed (PDict d))"
      and ident: "map_of d ''id'' = Some (PStr message_id)"
  shows "let d' = AList.update ''read'' (PBool True) d;
             fs' = AList.update (get_message_path message_id) (Parsed (PDict d')) fs
         in mcp__mail_read fs message_id = Inr (PDict d', fs')
          \<and> map_of fs' (get_message_path message_id) = Some (Parsed (PDict d'))
          \<and> map_of d' ''read'' = Some (PBool True)
          \<and> (\<forall>k. k \<noteq> ''read'' \<longrightarrow> map_of d' k = map_of d k)
          \<and> (\<forall>p. p \<noteq> get_message_path message_id \<longrightarrow> map_of fs' p = map_of fs p)
          \<and> (\<exists>fs''. mcp__mail_read fs' message_id = Inr (PDict d', fs''))"
proof -
  define d' where "d' = AList.update ''read'' (PBool True) d"
  define fs' where "fs' = AList.update (get_message_path message_id) (Parsed (PDict d')) fs"
  have ne: "d \<noteq> []" using ident by auto
  have ne': "d' \<noteq> []" using ne by (cases d) (auto simp: d'_def)
  have id': "map_of d' ''id'' = Some (PStr message_id)"
    using ident by (simp add: d'_def update_conv')
  have first: "mcp__mail_read fs message_id = Inr (PDict d', fs')"
    using stored ne id'
    by (simp add: mcp__mail_read_def load_message_def try_load_def save_message_def d'_def fs'_def)
  have kept: "map_of fs' (get_message_path message_id) = Some (Parsed (PDict d'))"
    by (simp add: fs'_def update_conv')
  have again: "AList.update ''read'' (PBool True) d' = d'"
    by (simp add: d'_def)
  have second: "mcp__mail_read fs' message_id =
      Inr (PDict d', AList.update (get_message_path message_id) (Parsed (PDict d')) fs')"
    using kept ne' id'
    by (simp add: mcp__mail_read_def load_message_def try_load_def save_message_def again)
  have "mcp__mail_read fs message_id = Inr (PDict d', fs')
          \<and> map_of fs' (get_message_path message_id) = Some (Parsed (PDict d'))
          \<and> map_of d' ''read'' = Some (PBool True)
          \<and> (\<forall>k. k \<noteq> ''read'' \<longrightarrow> map_of d' k = map_of d k)
          \<and> (\<forall>p. p \<noteq> get_message_path message_id \<longrightarrow> map_of fs' p = map_of fs p)
          \<and> (\<exists>fs''. mcp__mail_read fs' message_id = Inr (PDict d', fs''))"
    using first kept second
    by (auto simp: d'_def fs'_def update_conv')
  then show ?thesis
    by (simp add: d'_def fs'_def Let_def)
qed

theorem mail_read_marks_read_witness:
  "mcp__mail_read [(''msg_a.json'', Parsed (PDict [(''id'', PStr ''a''), (''body'', PStr ''hi''), (''read'', PBool False)]))] ''a''
     = Inr (PDict [(''id'', PStr ''a''), (''body'', PStr ''hi''), (''read'', PBool True)],
            [(''msg_a.json'', Parsed (PDict [(''id'', PStr ''a''), (''body'', PStr ''hi''), (''read'', PBool True)]))])"
  using mail_read_marks_read [of "[(''msg_a.json'', Parsed (PDict [(''id'', PStr ''a''), (''body'', PStr ''hi''), (''read'', PBool False)]))]" "''a''" "[(''id'', PStr ''a''), (''body'', PStr ''hi''), (''read'', PBool False)]"]
  by (simp add: get_message_path_def Let_def)

section \<open>Properties of the configuration module\<close>

lemma join_concat: "es \<noteq> [] \<Longrightarrow> sep @ join sep es = concat (map (\<lambda>e. sep @ e) es)"
  by (induction sep es rule: join.induct) auto

lemma seven_rules:
  "(if b1 then [m1] else []) @ (if b2 then [m2] else []) @ (if b3 then [m3] else []) @
   (if b4 then [m4] else []) @ (if b5 then [m5] else []) @ (if b6 then [m6] else []) @
   (if b7 then [m7] else [])
   = map snd (filter fst (zip [b1, b2, b3, b4, b5, b6, b7] [m1, m2, m3, m4, m5, m6, m7]))"
  by simp

lemma seven_count:
  "length ((if b1 then [m1] else []) @ (if b2 then [m2] else []) @ (if b3 then [m3] else []) @
   (if b4 then [m4] else []) @ (if b5 then [m5] else []) @ (if b6 then [m6] else []) @
   (if b7 then [m7::string] else []))
   = length (filter id [b1, b2, b3, b4, b5, b6, b7])"
  by simp

lemma seven_empty:
  "((if b1 then [m1] else []) @ (if b2 then [m2] else []) @ (if b3 then [m3] else []) @
   (if b4 then [m4] else []) @ (if b5 then [m5] else []) @ (if b6 then [m6] else []) @
   (if b7 then [m7::string] else []) = [])
   \<longleftrightarrow> True \<notin> set [b1, b2, b3, b4, b5, b6, b7]"
  by auto

lemma rule_violations_code:
  "rule_violations cls =
     [API_PORT cls < 1 \<or> API_PORT cls > 65535, API_WORKERS cls < 1,
      ENVIRONMENT cls \<notin> set valid_environments, LOG_LEVEL cls \<notin> set valid_log_levels,
      MAX_FILE_SIZE_MB cls < 1 \<or> MAX_FILE_SIZE_MB cls > 1000,
      CACHE_TYPE cls \<notin> set valid_cache_types,
      CACHE_TYPE cls = ''redis'' \<and> (CACHE_REDIS_URL cls = None \<or> CACHE_REDIS_URL cls = Some [])]"
  unfolding rule_violations_def valid_environments_def valid_log_levels_def valid_cache_types_def
  by (simp add: not_le not_less)

lemma validation_errors_rules:
  "validation_errors cls = map snd (filter fst (zip (rule_violations cls) (rule_messages cls)))"
  unfolding validation_errors_def rule_violations_code rule_messages_def
  by (rule seven_rules)

lemma validation_errors_empty:
  "validation_errors cls = [] \<longleftrightarrow> True \<notin> set (rule_violations cls)"
  unfolding validation_errors_def rule_violations_code
  by (rule seven_empty)

text \<open>
  C6. \<^verbatim>\<open>Config.validate\<close> raises exactly when at least one of the seven rules is violated
  (\<open>API_PORT\<close> in 1..65535, \<open>API_WORKERS\<close> at least 1, \<open>ENVIRONMENT\<close>, \<open>LOG_LEVEL\<close> and
  \<open>CACHE_TYPE\<close> in their enumerated sets, \<open>MAX_FILE_SIZE_MB\<close> in 1..1000, \<open>CACHE_REDIS_URL\<close>
  set when the cache type is redis), and otherwise returns. The exception is one
  \<^verbatim>\<open>ValueError\<close> whose message is the heading followed by one line, prefixed with a dash, for
  each violated rule and for no other, in the order of the rules. The telemetry settings never
  change whether it raises: telemetry enabled without an API key only logs a warning.
\<close>

theorem validate_aggregates:
  "snd (validate cls) =
     (if True \<in> set (rule_violations cls)
      then Inl (ValueError (''Configuration validation failed:'' @
                  concat (map (\<lambda>e. [CHR 0x0A] @ ''  - '' @ e) (validation_errors cls))))
      else Inr ())
   \<and> validation_errors cls = map snd (filter fst (zip (rule_violations cls) (rule_messages cls)))
   \<and> length (validation_errors cls) = length (filter id (rule_violations cls))
   \<and> (\<forall>enabled key. snd (validate (cls\<lparr>TELEMETRY_ENABLED := enabled, HONEYCOMB_API_KEY := key\<rparr>))
                      = snd (validate cls))
   \<and> (TELEMETRY_ENABLED cls \<and> HONEYCOMB_API_KEY cls = [] \<longrightarrow>
        Warning ''Telemetry is enabled but HONEYCOMB_API_KEY is not set'' \<in> set (fst (validate cls)))"
proof -
  have res: "snd (validate cls) =
     (if True \<in> set (rule_violations cls)
      then Inl (ValueError (''Configuration validation failed:'' @
                  concat (map (\<lambda>e. [CHR 0x0A] @ ''  - '' @ e) (validation_errors cls))))
      else Inr ())"
  proof (cases "validation_errors cls = []")
    case True
    then show ?thesis
      using validation_errors_empty [of cls] by (simp add: validate_def Let_def)
  next
    case False
    have "[CHR 0x0A] @ join [CHR 0x0A] (map ((@) ''  - '') (validation_errors cls)) =
          concat (map (\<lambda>e. [CHR 0x0A] @ ''  - '' @ e) (validation_errors cls))"
      using False join_concat [of "map ((@) ''  - '') (validation_errors cls)" "[CHR 0x0A]"]
      by (simp add: comp_def)
    then show ?thesis
      using False validation_errors_empty [of cls]
      by (simp add: validate_def Let_def)
  qed
  have len: "length (validation_errors cls) = length (filter id (rule_violations cls))"
    unfolding validation_errors_def rule_violations_code
    by (rule seven_count)
  have indep: "\<And>enabled key. validation_errors (cls\<lparr>TELEMETRY_ENABLED := enabled, HONEYCOMB_API_KEY := key\<rparr>)
       = validation_errors cls"
    by (simp add: validation_errors_def)
  have tel: "\<forall>enabled key. snd (validate (cls\<lparr>TELEMETRY_ENABLED := enabled, HONEYCOMB_API_KEY := key\<rparr>))
                      = snd (validate cls)"
    by (simp add: validate_def Let_def indep)
  have warn: "TELEMETRY_ENABLED cls \<and> HONEYCOMB_API_KEY cls = [] \<longrightarrow>
        Warning ''Telemetry is enabled but HONEYCOMB_API_KEY is not set'' \<in> set (fst (validate cls))"
    by (simp add: validate_def Let_def)
  show ?thesis
    using res validation_errors_rules len tel warn by blast
qed

theorem validate_aggregates_witness:
  "snd (validate (default_config\<lparr>API_PORT := 70000, ENVIRONMENT := ''invalid'', API_WORKERS := 0\<rparr>)) =
     Inl (ValueError (''Configuration validation failed:'' @ [CHR 0x0A] @
       ''  - Invalid API_PORT: 70000'' @ [CHR 0x0A] @
       ''  - API_WORKERS must be at least 1, got 0'' @ [CHR 0x0A] @
       ''  - ENVIRONMENT must be one of ['development', 'staging', 'production', 'test'], got invalid''))
   \<and> Warning ''Telemetry is enabled but HONEYCOMB_API_KEY is not set''
       \<in> set (fst (validate (default_config\<lparr>API_PORT := 70000, ENVIRONMENT := ''invalid'',
                                              API_WORKERS := 0\<rparr>)))"
proof -
  define c where "c = default_config\<lparr>API_PORT := 70000, ENVIRONMENT := ''invalid'', API_WORKERS := 0\<rparr>"
  have violated: "True \<in> set (rule_violations c)"
    by (simp add: c_def rule_violations_def default_config_def)
  have errors: "validation_errors c =
      [''Invalid API_PORT: 70000'', ''API_WORKERS must be at least 1, got 0'',
       ''ENVIRONMENT must be one of ['development', 'staging', 'production', 'test'], got invalid'']"
    by (simp add: c_def validation_errors_def default_config_def valid_environments_def
        valid_log_levels_def valid_cache_types_def str_int_def digits.simps)
  have telemetry: "TELEMETRY_ENABLED c \<and> HONEYCOMB_API_KEY c = []"
    by (simp add: c_def default_config_def)
  from validate_aggregates [of c] violated errors telemetry
  have "snd (validate c) =
     Inl (ValueError (''Configuration validation failed:'' @ [CHR 0x0A] @
       ''  - Invalid API_PORT: 70000'' @ [CHR 0x0A] @
       ''  - API_WORKERS must be at least 1, got 0'' @ [CHR 0x0A] @
       ''  - ENVIRONMENT must be one of ['development', 'staging', 'production', 'test'], got invalid''))
   \<and> Warning ''Telemetry is enabled but HONEYCOMB_API_KEY is not set'' \<in> set (fst (validate c))"
    by simp
  then show ?thesis
    by (simp only: c_def)
qed

lemma to_dict_fold:
  "distinct (map fst attrs) \<Longrightarrow>
   map_of (foldl to_dict_step acc attrs) key =
     (case map_of attrs key of
        None \<Rightarrow> map_of acc key
      | Some value \<Rightarrow>
          if isupper key \<and> \<not> startswith key ''_''
          then Some (if sensitive key then redact value else value)
          else map_of acc key)"
proof (induction attrs arbitrary: acc)
  case Nil
  then show ?case by simp
next
  case (Cons a attrs)
  obtain k v where a: "a = (k, v)" by (cases a)
  from Cons.prems a have fresh: "map_of attrs k = None"
    by (simp add: map_of_eq_None_iff)
  from Cons.prems have "distinct (map fst attrs)" by simp
  from Cons.IH [OF this, of "to_dict_step acc a"] show ?case
    using a fresh by (auto simp: to_dict_step_def update_conv' split: option.splits)
qed

lemma to_dict_attrs_lookup:
  assumes "distinct (map fst attrs)"
  shows "map_of (to_dict_attrs attrs) key =
     (case map_of attrs key of
        None \<Rightarrow> None
      | Some value \<Rightarrow>
          if isupper key \<and> \<not> startswith key ''_''
          then Some (if sensitive key then redact value else value)
          else None)"
  using to_dict_fold [OF assms, of "[]" key]
  by (cases "map_of attrs key") (simp_all add: to_dict_attrs_def)

lemma dir_Config_distinct: "distinct (map fst (dir_Config cls))"
  by (simp add: dir_Config_def)

lemma dir_Config_exported:
  "map_of (dir_Config cls) key = Some v \<Longrightarrow> isupper key \<and> \<not> startswith key ''_''"
  by (auto simp: dir_Config_def isupper_def startswith_def upper_letters_def lower_letters_def
      split: if_splits)

lemma redact_list:
  "xs \<noteq> [] \<Longrightarrow> \<exists>ys. redact (PList xs) = PList ys \<and> length ys = length xs \<and>
     (\<forall>i<length xs. ys ! i = PStr (''***REDACTED'' @ str_int (int i) @ ''***''))"
  by simp

lemma sensitive_names:
  "sensitive ''SECRET_KEY''" "sensitive ''API_TOKENS''" "sensitive ''HONEYCOMB_API_KEY''"
  "\<not> sensitive ''PROJECT_NAME''" "\<not> sensitive ''API_PORT''"
  by code_simp+

text \<open>
  C7. \<^verbatim>\<open>Config.to_dict\<close> maps every attribute name that is upper case and does not start
  with an underscore to its value, and no other name. Under a name that contains \<open>key\<close>,
  \<open>secret\<close>, \<open>password\<close> or \<open>token\<close> in any letter case, a non-empty string becomes
  \<open>***REDACTED***\<close> and a non-empty list of length \<open>n\<close> becomes the list of
  \<open>***REDACTED0***\<close> to \<open>***REDACTED(n-1)***\<close>, of the same length; an empty string, an empty
  list and a value of any other type stay as they are, and so does every value under a name
  that is not sensitive, such as \<open>PROJECT_NAME\<close> and \<open>API_PORT\<close>.
\<close>

theorem to_dict_redacts:
  "(distinct (map fst attrs) \<longrightarrow>
      map_of (to_dict_attrs attrs) key =
        (case map_of attrs key of
           None \<Rightarrow> None
         | Some value \<Rightarrow>
             if isupper key \<and> \<not> startswith key ''_''
             then Some (if sensitive key then redact value else value)
             else None))
   \<and> map_of (to_dict cls) key =
        (case map_of (dir_Config cls) key of
           None \<Rightarrow> None
         | Some value \<Rightarrow> Some (if sensitive key then redact value else value))
   \<and> (s \<noteq> [] \<longrightarrow> redact (PStr s) = PStr ''***REDACTED***'')
   \<and> (xs \<noteq> [] \<longrightarrow> (\<exists>ys. redact (PList xs) = PList ys \<and> length ys = length xs \<and>
         (\<forall>i<length xs. ys ! i = PStr (''***REDACTED'' @ str_int (int i) @ ''***''))))
   \<and> redact (PStr []) = PStr [] \<and> redact (PList []) = PList []
   \<and> redact PNone = PNone \<and> redact (PBool b) = PBool b \<and> redact (PInt n) = PInt n
   \<and> redact (PDict d) = PDict d
   \<and> \<not> sensitive ''PROJECT_NAME'' \<and> \<not> sensitive ''API_PORT''"
proof -
  have generic: "distinct (map fst attrs) \<longrightarrow>
      map_of (to_dict_attrs attrs) key =
        (case map_of attrs key of
           None \<Rightarrow> None
         | Some value \<Rightarrow>
             if isupper key \<and> \<not> startswith key ''_''
             then Some (if sensitive key then redact value else value)
             else None)"
  proof
    assume "distinct (map fst attrs)"
    from to_dict_attrs_lookup [OF this, of key] show "map_of (to_dict_attrs attrs) key =
        (case map_of attrs key of
           None \<Rightarrow> None
         | Some value \<Rightarrow>
             if isupper key \<and> \<not> startswith key ''_''
             then Some (if sensitive key then redact value else value)
             else None)"
      .
  qed
  have "map_of (to_dict cls) key =
        (case map_of (dir_Config cls) key of
           None \<Rightarrow> None
         | Some value \<Rightarrow>
             if isupper key \<and> \<not> startswith key ''_''
             then Some (if sensitive key then redact value else value)
             else None)"
    using to_dict_attrs_lookup [OF dir_Config_distinct, of cls key]
    by (simp add: to_dict_def)
  then have for_class: "map_of (to_dict cls) key =
        (case map_of (dir_Config cls) key of
           None \<Rightarrow> None
         | Some value \<Rightarrow> Some (if sensitive key then redact value else value))"
    using dir_Config_exported [of cls key] by (simp split: option.splits)
  show ?thesis
    using generic for_class redact_list [of xs] sensitive_names by simp
qed

theorem to_dict_redacts_witness:
  "map_of (to_dict (default_config\<lparr>SECRET_KEY := ''super-secret'',
                                     API_TOKENS := [''token1'', ''token2'']\<rparr>)) ''API_TOKENS''
     = Some (PList [PStr ''***REDACTED0***'', PStr ''***REDACTED1***''])
   \<and> map_of (to_dict_attrs (dir_Config (default_config\<lparr>SECRET_KEY := ''super-secret'',
                                     API_TOKENS := [''token1'', ''token2'']\<rparr>))) ''API_TOKENS''
     = Some (PList [PStr ''***REDACTED0***'', PStr ''***REDACTED1***''])
   \<and> redact (PStr ''super-secret'') = PStr ''***REDACTED***''"
proof -
  define c where "c = default_config\<lparr>SECRET_KEY := ''super-secret'',
                                     API_TOKENS := [''token1'', ''token2'']\<rparr>"
  have names: "distinct (map fst (dir_Config c))"
    by (simp add: dir_Config_def)
  have tokens: "map_of (dir_Config c) ''API_TOKENS'' = Some (PList [PStr ''token1'', PStr ''token2''])"
    by (simp add: dir_Config_def c_def default_config_def)
  have sens: "sensitive ''API_TOKENS''"
    by code_simp
  have up: "isupper ''API_TOKENS''" "\<not> startswith ''API_TOKENS'' ''_''"
    by code_simp+
  have marks: "str_int 0 = ''0''" "str_int 1 = ''1''"
    by (simp_all add: str_int_def digits.simps)
  from to_dict_redacts [of "dir_Config c" "''API_TOKENS''" c "''super-secret''"
      "[PStr ''token1'', PStr ''token2'']"] names tokens sens up marks
  have "map_of (to_dict c) ''API_TOKENS''
     = Some (PList [PStr ''***REDACTED0***'', PStr ''***REDACTED1***''])
   \<and> map_of (to_dict_attrs (dir_Config c)) ''API_TOKENS''
     = Some (PList [PStr ''***REDACTED0***'', PStr ''***REDACTED1***''])
   \<and> redact (PStr ''super-secret'') = PStr ''***REDACTED***''"
    by simp
  then show ?thesis
    by (simp only: c_def)
qed

section \<open>Reading a message whose file is damaged\<close>

lemma mail_read_missing:
  "map_of fs (get_message_path message_id) = None \<Longrightarrow>
   mcp__mail_read fs message_id =
     Inr (PDict [(''error'', PStr (''Message '' @ message_id @ '' not found''))], fs)"
  by (simp add: mcp__mail_read_def load_message_def)

lemma mail_read_not_json:
  "map_of fs (get_message_path message_id) = Some f \<Longrightarrow> f = Malformed \<or> f = Unreadable \<Longrightarrow>
   mcp__mail_read fs message_id =
     Inr (PDict [(''error'', PStr (''Message '' @ message_id @ '' not found''))], fs)"
  by (auto simp: mcp__mail_read_def load_message_def try_load_def)

text \<open>
  C9. A message file whose bytes are not text in the encoding of \<^verbatim>\<open>open\<close> is not parseable
  JSON, yet \<^verbatim>\<open>mcp__mail_read\<close> does not answer with the not-found payload it gives for a
  missing identifier: the \<^verbatim>\<open>UnicodeDecodeError\<close> of \<^verbatim>\<open>json.load\<close> is none of the
  exceptions \<^verbatim>\<open>load_message\<close> catches, and the call raises it.
\<close>

theorem mail_read_undecodable_raises:
  "mcp__mail_read [(''msg_a.json'', Undecodable)] ''a'' = Inl UnicodeDecodeError
   \<and> mcp__mail_read [] ''a'' = Inr (PDict [(''error'', PStr ''Message a not found'')], [])"
  by (simp add: mcp__mail_read_def load_message_def try_load_def get_message_path_def)

section \<open>Stopping a process\<close>

lemma save_process_own_path:
  "map_of d ''id'' = Some (PStr process_id) \<Longrightarrow>
   save_process fs (PDict d) = Inr (AList.update (get_process_path process_id) (Parsed (PDict d)) fs)"
  by (simp add: save_process_def)

lemma stop_no_record:
  "map_of fs (get_process_path process_id) = None \<Longrightarrow>
   mcp__process_stop env fs process_id = Inr (False, fs, [])"
  by (simp add: mcp__process_stop_def load_process_def)

lemma stop_no_pid:
  assumes "map_of fs (get_process_path process_id) = Some (Parsed (PDict d))"
      and "case map_of d ''pid'' of None \<Rightarrow> True | Some v \<Rightarrow> \<not> truthy v"
  shows "mcp__process_stop env fs process_id = Inr (False, fs, [])"
  using assms
  by (auto simp: mcp__process_stop_def load_process_def try_load_def split: option.splits)

lemma stop_with_pid:
  assumes stored: "map_of fs (get_process_path process_id) = Some (Parsed (PDict d))"
      and ident: "map_of d ''id'' = Some (PStr process_id)"
      and pid: "map_of d ''pid'' = Some v" "truthy v" "pid_arg v = Inr n"
  shows "mcp__process_stop env fs process_id =
     Inr (True,
          AList.update (get_process_path process_id)
            (Parsed (PDict (if fst (stop_signals env n)
                            then AList.update ''stopped_at'' (PStr (stop_time env @ ''Z''))
                                   (AList.update ''status'' (PStr ''stopped'') d)
                            else AList.update ''status'' (PStr ''stopped'') d))) fs,
          snd (stop_signals env n))"
proof -
  have ne: "d \<noteq> []" using ident by auto
  show ?thesis
    using stored ne pid ident
    by (simp add: mcp__process_stop_def load_process_def try_load_def save_process_own_path
        update_conv' split_beta)
qed

text \<open>
  C1 as the code has it. Let the record of \<open>process_id\<close> exist under its own identifier and hold
  a process identifier. Then \<^verbatim>\<open>mcp__process_stop\<close> returns true, whatever the operating
  system answers, and the record persisted afterwards has status \<open>stopped\<close> and is otherwise
  as before, but for \<open>stopped_at\<close>: when the signals went through without an error of the
  operating system, \<open>stopped_at\<close> is the stop time; when such an error showed the process gone,
  \<open>stopped_at\<close> is what it was before. If there is no file for the identifier, or the record has
  no process identifier, the call returns false, writes nothing and makes no system call.
\<close>

theorem process_stop_marks_stopped:
  "(map_of fs (get_process_path process_id) = Some (Parsed (PDict d)) \<and>
    map_of d ''id'' = Some (PStr process_id) \<and>
    map_of d ''pid'' = Some v \<and> truthy v \<and> pid_arg v = Inr n \<longrightarrow>
      (\<exists>fs' d'. mcp__process_stop env fs process_id = Inr (True, fs', snd (stop_signals env n))
         \<and> map_of fs' (get_process_path process_id) = Some (Parsed (PDict d'))
         \<and> (\<forall>p. p \<noteq> get_process_path process_id \<longrightarrow> map_of fs' p = map_of fs p)
         \<and> map_of d' ''status'' = Some (PStr ''stopped'')
         \<and> map_of d' ''stopped_at'' =
               (if fst (stop_signals env n) then Some (PStr (stop_time env @ ''Z''))
                else map_of d ''stopped_at'')
         \<and> (\<forall>k. k \<noteq> ''status'' \<and> k \<noteq> ''stopped_at'' \<longrightarrow> map_of d' k = map_of d k)))
   \<and> (map_of fs (get_process_path process_id) = None \<longrightarrow>
        mcp__process_stop env fs process_id = Inr (False, fs, []))
   \<and> (map_of fs (get_process_path process_id) = Some (Parsed (PDict d)) \<and>
      (case map_of d ''pid'' of None \<Rightarrow> True | Some v \<Rightarrow> \<not> truthy v) \<longrightarrow>
        mcp__process_stop env fs process_id = Inr (False, fs, []))"
proof (intro conjI impI)
  assume a: "map_of fs (get_process_path process_id) = Some (Parsed (PDict d)) \<and>
    map_of d ''id'' = Some (PStr process_id) \<and>
    map_of d ''pid'' = Some v \<and> truthy v \<and> pid_arg v = Inr n"
  then have run: "mcp__process_stop env fs process_id =
     Inr (True,
          AList.update (get_process_path process_id)
            (Parsed (PDict (if fst (stop_signals env n)
                            then AList.update ''stopped_at'' (PStr (stop_time env @ ''Z''))
                                   (AList.update ''status'' (PStr ''stopped'') d)
                            else AList.update ''status'' (PStr ''stopped'') d))) fs,
          snd (stop_signals env n))"
    by (intro stop_with_pid) auto
  show "\<exists>fs' d'. mcp__process_stop env fs process_id = Inr (True, fs', snd (stop_signals env n))
         \<and> map_of fs' (get_process_path process_id) = Some (Parsed (PDict d'))
         \<and> (\<forall>p. p \<noteq> get_process_path process_id \<longrightarrow> map_of fs' p = map_of fs p)
         \<and> map_of d' ''status'' = Some (PStr ''stopped'')
         \<and> map_of d' ''stopped_at'' =
               (if fst (stop_signals env n) then Some (PStr (stop_time env @ ''Z''))
                else map_of d ''stopped_at'')
         \<and> (\<forall>k. k \<noteq> ''status'' \<and> k \<noteq> ''stopped_at'' \<longrightarrow> map_of d' k = map_of d k)"
    unfolding run
    by (intro exI conjI refl) (auto simp: update_conv')
next
  assume "map_of fs (get_process_path process_id) = None"
  then show "mcp__process_stop env fs process_id = Inr (False, fs, [])"
    by (rule stop_no_record)
next
  assume "map_of fs (get_process_path process_id) = Some (Parsed (PDict d)) \<and>
      (case map_of d ''pid'' of None \<Rightarrow> True | Some v \<Rightarrow> \<not> truthy v)"
  then show "mcp__process_stop env fs process_id = Inr (False, fs, [])"
    using stop_no_pid by blast
qed

theorem process_stop_gone_counterexample:
  "mcp__process_stop
     \<lparr>pgid_term = None, term_ok = False, probe = (\<lambda>pid. False), pgid_kill = None, kill_ok = False,
      stop_time = ''2024-07-03T10:30:00''\<rparr>
     [(''proc_a.json'', Parsed (PDict [(''id'', PStr ''a''), (''pid'', PInt 123),
                                       (''status'', PStr ''running'')]))] ''a''
   = Inr (True,
          [(''proc_a.json'', Parsed (PDict [(''id'', PStr ''a''), (''pid'', PInt 123),
                                            (''status'', PStr ''stopped'')]))],
          [Getpgid 123])
   \<and> map_of [(''id'', PStr ''a''), (''pid'', PInt 123), (''status'', PStr ''stopped'')]
        ''stopped_at'' = None"
  by (simp add: mcp__process_stop_def load_process_def try_load_def save_process_def
      get_process_path_def stop_signals_def is_process_running_def)

theorem process_stop_marks_stopped_witness:
  "\<exists>fs'. mcp__process_stop
     \<lparr>pgid_term = Some 123, term_ok = True, probe = (\<lambda>pid. False), pgid_kill = None, kill_ok = False,
      stop_time = ''2024-07-03T10:30:00''\<rparr>
     [(''proc_a.json'', Parsed (PDict [(''id'', PStr ''a''), (''pid'', PInt 123),
                                       (''status'', PStr ''running'')]))] ''a''
   = Inr (True, fs', [Getpgid 123, Killpg 123 SIGTERM, Sleep 2, Kill 123 SIG0])"
  using process_stop_marks_stopped [of
     "[(''proc_a.json'', Parsed (PDict [(''id'', PStr ''a''), (''pid'', PInt 123),
                                       (''status'', PStr ''running'')]))]"
     "''a''" "[(''id'', PStr ''a''), (''pid'', PInt 123), (''status'', PStr ''running'')]"
     "PInt 123" 123
     "\<lparr>pgid_term = Some 123, term_ok = True, probe = (\<lambda>pid. False), pgid_kill = None, kill_ok = False,
      stop_time = ''2024-07-03T10:30:00''\<rparr>"]
  by (auto simp: get_process_path_def stop_signals_def is_process_running_def)

section \<open>Restarting a process\<close>

lemma hexdigit_not_E: "k < 16 \<Longrightarrow> hexdigit k \<noteq> CHR ''E''"
proof -
  assume "k < 16"
  then have "hexdigit k \<in> set ''0123456789abcdef''"
    unfolding hexdigit_def by (intro nth_mem) simp
  then show ?thesis by auto
qed

lemma uuid_str_head: "\<exists>k rest. k < 16 \<and> uuid_str n = hexdigit k # rest"
proof -
  have "hex32 n = hexdigit ((n div 16 ^ 31) mod 16) # map (\<lambda>i. hexdigit ((n div 16 ^ (31 - i)) mod 16)) [1..<32]"
    unfolding hex32_def by (subst upt_conv_Cons) simp_all
  then show ?thesis
    by (auto simp: uuid_str_def Let_def intro!: exI [of _ "(n div 16 ^ 31) mod 16"])
qed

lemma uuid_str_not_error: "\<not> startswith (uuid_str n) ''Error''"
proof -
  obtain k rest where "k < 16" "uuid_str n = hexdigit k # rest"
    using uuid_str_head by blast
  then show ?thesis
    using hexdigit_not_E [of k] by (simp add: startswith_def)
qed

lemma start_error_iff:
  "startswith (fst (mcp__process_start uuid4 now outcome st command cwd name owner)) ''Error''
     \<longleftrightarrow> (\<forall>pid. outcome \<noteq> Spawned pid)"
  by (cases outcome)
     (simp_all add: mcp__process_start_def generate_process_id_def Let_def startswith_def
        uuid_str_not_error [unfolded startswith_def, simplified])

lemma start_spawned:
  "mcp__process_start uuid4 now (Spawned pid) st command cwd name owner =
     (uuid_str uuid4,
      st\<lparr>logs := AList.update (get_log_path (uuid_str uuid4)) [] (logs st),
         meta := AList.update (get_process_path (uuid_str uuid4))
            (Parsed (PDict [(''id'', PStr (uuid_str uuid4)), (''name'', name), (''owner'', owner),
                     (''command'', command), (''cwd'', cwd), (''pid'', PInt pid),
                     (''status'', PStr ''running''), (''started_at'', PStr (now @ ''Z'')),
                     (''log_file'', PStr (''/workspaces/.processes/logs/'' @
                                           get_log_path (uuid_str uuid4)))]))
            (meta st)\<rparr>)"
  by (simp add: mcp__process_start_def generate_process_id_def Let_def)

lemma start_keeps_other_records:
  "p \<noteq> get_process_path (uuid_str uuid4) \<Longrightarrow>
   map_of (meta (snd (mcp__process_start uuid4 now outcome st command cwd name owner))) p
     = map_of (meta st) p"
  by (cases outcome)
     (simp_all add: mcp__process_start_def generate_process_id_def Let_def update_conv')

lemma restart_no_record:
  "map_of (meta st) (get_process_path process_id) = None \<Longrightarrow>
   mcp__process_restart env uuid4 now outcome st process_id = Inr (False, st, [])"
  by (simp add: mcp__process_restart_def load_process_def)

lemma restart_no_pid:
  assumes "map_of (meta st) (get_process_path process_id) = Some (Parsed (PDict d))"
      and "case map_of d ''pid'' of None \<Rightarrow> True | Some v \<Rightarrow> \<not> truthy v"
  shows "mcp__process_restart env uuid4 now outcome st process_id = Inr (False, st, [])"
proof (cases "d = []")
  case True
  with assms(1) show ?thesis
    by (simp add: mcp__process_restart_def load_process_def try_load_def)
next
  case False
  with assms(1) stop_no_pid [OF assms, of env] show ?thesis
    by (simp add: mcp__process_restart_def load_process_def try_load_def)
qed

lemma restart_with_pid:
  assumes stored: "map_of (meta st) (get_process_path process_id) = Some (Parsed (PDict d))"
      and ident: "map_of d ''id'' = Some (PStr process_id)"
      and pid: "map_of d ''pid'' = Some v" "truthy v" "pid_arg v = Inr n"
      and fields: "map_of d ''command'' = Some c" "map_of d ''cwd'' = Some w"
                  "map_of d ''name'' = Some nm" "map_of d ''owner'' = Some ow"
  shows "\<exists>fs'. mcp__process_stop env (meta st) process_id = Inr (True, fs', snd (stop_signals env n))
     \<and> mcp__process_restart env uuid4 now outcome st process_id =
         Inr (\<not> startswith (fst (mcp__process_start uuid4 now outcome (st\<lparr>meta := fs'\<rparr>) c w nm ow))
                ''Error'',
              snd (mcp__process_start uuid4 now outcome (st\<lparr>meta := fs'\<rparr>) c w nm ow),
              snd (stop_signals env n))"
proof -
  have ne: "d \<noteq> []" using ident by auto
  note stop = stop_with_pid [OF stored ident pid, of env]
  show ?thesis
    using stored ne fields
    by (simp add: mcp__process_restart_def load_process_def try_load_def stop split_beta)
qed

text \<open>
  C2 as the code has it. For a stored process record (held under its own identifier, with its
  \<open>command\<close>, \<open>cwd\<close>, \<open>name\<close> and \<open>owner\<close>) \<^verbatim>\<open>mcp__process_restart\<close> first stops the
  process and then starts one anew with the same four values. It returns false exactly when
  there is no record, when the stop returns false (the record holds no process identifier), or
  when the start returns a string that begins with \<open>Error\<close>, which is when the process could
  not be spawned; otherwise it returns true, and the store then holds a record under the
  identifier just drawn with the same command, working directory, name and owner. The
  identifier is the one \<^verbatim>\<open>generate_process_id\<close> draws, and nothing compares it with the
  original: when it differs, the original record is still there, marked stopped; when the draw
  repeats the original identifier, the new record takes the place of the original one.
\<close>

theorem process_restart_result:
  "(map_of (meta st) (get_process_path process_id) = None \<longrightarrow>
      mcp__process_restart env uuid4 now outcome st process_id = Inr (False, st, []))
   \<and> (map_of (meta st) (get_process_path process_id) = Some (Parsed (PDict d)) \<and>
       (case map_of d ''pid'' of None \<Rightarrow> True | Some v \<Rightarrow> \<not> truthy v) \<longrightarrow>
      mcp__process_stop env (meta st) process_id = Inr (False, meta st, []) \<and>
      mcp__process_restart env uuid4 now outcome st process_id = Inr (False, st, []))
   \<and> (map_of (meta st) (get_process_path process_id) = Some (Parsed (PDict d)) \<and>
       map_of d ''id'' = Some (PStr process_id) \<and>
       map_of d ''pid'' = Some v \<and> truthy v \<and> pid_arg v = Inr n \<and>
       map_of d ''command'' = Some c \<and> map_of d ''cwd'' = Some w \<and>
       map_of d ''name'' = Some nm \<and> map_of d ''owner'' = Some ow \<longrightarrow>
      (\<exists>fs' new_id st'.
          mcp__process_stop env (meta st) process_id = Inr (True, fs', snd (stop_signals env n))
        \<and> mcp__process_start uuid4 now outcome (st\<lparr>meta := fs'\<rparr>) c w nm ow = (new_id, st')
        \<and> mcp__process_restart env uuid4 now outcome st process_id =
             Inr (\<not> startswith new_id ''Error'', st', snd (stop_signals env n))
        \<and> (startswith new_id ''Error'' \<longleftrightarrow> (\<forall>pid. outcome \<noteq> Spawned pid))
        \<and> (\<forall>pid. outcome = Spawned pid \<longrightarrow>
              new_id = uuid_str uuid4 \<and>
              (\<exists>d'. map_of (meta st') (get_process_path new_id) = Some (Parsed (PDict d'))
                  \<and> map_of d' ''id'' = Some (PStr new_id)
                  \<and> map_of d' ''command'' = Some c \<and> map_of d' ''cwd'' = Some w
                  \<and> map_of d' ''name'' = Some nm \<and> map_of d' ''owner'' = Some ow
                  \<and> map_of d' ''pid'' = Some (PInt pid)
                  \<and> map_of d' ''status'' = Some (PStr ''running'')))
        \<and> (uuid_str uuid4 \<noteq> process_id \<longrightarrow>
              (\<exists>d''. map_of (meta st') (get_process_path process_id) = Some (Parsed (PDict d''))
                  \<and> map_of d'' ''status'' = Some (PStr ''stopped'')))
        \<and> (uuid_str uuid4 = process_id \<longrightarrow>
              (\<forall>pid. outcome = Spawned pid \<longrightarrow>
                 (\<exists>d''. map_of (meta st') (get_process_path process_id) = Some (Parsed (PDict d''))
                     \<and> map_of d'' ''pid'' = Some (PInt pid)
                     \<and> map_of d'' ''status'' = Some (PStr ''running''))))))"
proof (intro conjI impI)
  assume "map_of (meta st) (get_process_path process_id) = None"
  then show "mcp__process_restart env uuid4 now outcome st process_id = Inr (False, st, [])"
    by (rule restart_no_record)
next
  assume a: "map_of (meta st) (get_process_path process_id) = Some (Parsed (PDict d)) \<and>
       (case map_of d ''pid'' of None \<Rightarrow> True | Some v \<Rightarrow> \<not> truthy v)"
  then show "mcp__process_stop env (meta st) process_id = Inr (False, meta st, [])"
    using stop_no_pid by blast
  from a show "mcp__process_restart env uuid4 now outcome st process_id = Inr (False, st, [])"
    using restart_no_pid by blast
next
  assume a: "map_of (meta st) (get_process_path process_id) = Some (Parsed (PDict d)) \<and>
       map_of d ''id'' = Some (PStr process_id) \<and>
       map_of d ''pid'' = Some v \<and> truthy v \<and> pid_arg v = Inr n \<and>
       map_of d ''command'' = Some c \<and> map_of d ''cwd'' = Some w \<and>
       map_of d ''name'' = Some nm \<and> map_of d ''owner'' = Some ow"
  then have stored: "map_of (meta st) (get_process_path process_id) = Some (Parsed (PDict d))"
    and ident: "map_of d ''id'' = Some (PStr process_id)"
    and pid: "map_of d ''pid'' = Some v" "truthy v" "pid_arg v = Inr n"
    and fields: "map_of d ''command'' = Some c" "map_of d ''cwd'' = Some w"
                "map_of d ''name'' = Some nm" "map_of d ''owner'' = Some ow"
    by simp_all
  define dstop where "dstop = (if fst (stop_signals env n)
                            then AList.update ''stopped_at'' (PStr (stop_time env @ ''Z''))
                                   (AList.update ''status'' (PStr ''stopped'') d)
                            else AList.update ''status'' (PStr ''stopped'') d)"
  define fs' where "fs' = AList.update (get_process_path process_id) (Parsed (PDict dstop)) (meta st)"
  define r where "r = mcp__process_start uuid4 now outcome (st\<lparr>meta := fs'\<rparr>) c w nm ow"
  have stop: "mcp__process_stop env (meta st) process_id = Inr (True, fs', snd (stop_signals env n))"
    using stop_with_pid [OF stored ident pid, of env] by (simp add: fs'_def dstop_def)
  have restart: "mcp__process_restart env uuid4 now outcome st process_id =
      Inr (\<not> startswith (fst r) ''Error'', snd r, snd (stop_signals env n))"
    using restart_with_pid [OF stored ident pid fields, of env uuid4 now outcome] stop
    by (auto simp: r_def)
  have err: "startswith (fst r) ''Error'' \<longleftrightarrow> (\<forall>pid. outcome \<noteq> Spawned pid)"
    unfolding r_def by (rule start_error_iff)
  have spawned: "\<forall>pid. outcome = Spawned pid \<longrightarrow>
              fst r = uuid_str uuid4 \<and>
              (\<exists>d'. map_of (meta (snd r)) (get_process_path (fst r)) = Some (Parsed (PDict d'))
                  \<and> map_of d' ''id'' = Some (PStr (fst r))
                  \<and> map_of d' ''command'' = Some c \<and> map_of d' ''cwd'' = Some w
                  \<and> map_of d' ''name'' = Some nm \<and> map_of d' ''owner'' = Some ow
                  \<and> map_of d' ''pid'' = Some (PInt pid)
                  \<and> map_of d' ''status'' = Some (PStr ''running''))"
    by (auto simp: r_def start_spawned update_conv')
  have differs: "uuid_str uuid4 \<noteq> process_id \<longrightarrow>
              (\<exists>d''. map_of (meta (snd r)) (get_process_path process_id) = Some (Parsed (PDict d''))
                  \<and> map_of d'' ''status'' = Some (PStr ''stopped''))"
  proof
    assume "uuid_str uuid4 \<noteq> process_id"
    then have ne: "get_process_path process_id \<noteq> get_process_path (uuid_str uuid4)"
      by (simp add: get_process_path_def)
    then have "map_of (meta (snd r)) (get_process_path process_id)
        = map_of fs' (get_process_path process_id)"
      unfolding r_def by (simp add: start_keeps_other_records)
    also have "\<dots> = Some (Parsed (PDict dstop))"
      by (simp add: fs'_def update_conv')
    finally have kept: "map_of (meta (snd r)) (get_process_path process_id)
        = Some (Parsed (PDict dstop))" .
    have "map_of dstop ''status'' = Some (PStr ''stopped'')"
      by (simp add: dstop_def update_conv')
    with kept show "\<exists>d''. map_of (meta (snd r)) (get_process_path process_id) = Some (Parsed (PDict d''))
                  \<and> map_of d'' ''status'' = Some (PStr ''stopped'')"
      by auto
  qed
  have repeats: "uuid_str uuid4 = process_id \<longrightarrow>
              (\<forall>pid. outcome = Spawned pid \<longrightarrow>
                 (\<exists>d''. map_of (meta (snd r)) (get_process_path process_id) = Some (Parsed (PDict d''))
                     \<and> map_of d'' ''pid'' = Some (PInt pid)
                     \<and> map_of d'' ''status'' = Some (PStr ''running'')))"
    using spawned by auto
  show "\<exists>fs' new_id st'.
          mcp__process_stop env (meta st) process_id = Inr (True, fs', snd (stop_signals env n))
        \<and> mcp__process_start uuid4 now outcome (st\<lparr>meta := fs'\<rparr>) c w nm ow = (new_id, st')
        \<and> mcp__process_restart env uuid4 now outcome st process_id =
             Inr (\<not> startswith new_id ''Error'', st', snd (stop_signals env n))
        \<and> (startswith new_id ''Error'' \<longleftrightarrow> (\<forall>pid. outcome \<noteq> Spawned pid))
        \<and> (\<forall>pid. outcome = Spawned pid \<longrightarrow>
              new_id = uuid_str uuid4 \<and>
              (\<exists>d'. map_of (meta st') (get_process_path new_id) = Some (Parsed (PDict d'))
                  \<and> map_of d' ''id'' = Some (PStr new_id)
                  \<and> map_of d' ''command'' = Some c \<and> map_of d' ''cwd'' = Some w
                  \<and> map_of d' ''name'' = Some nm \<and> map_of d' ''owner'' = Some ow
                  \<and> map_of d' ''pid'' = Some (PInt pid)
                  \<and> map_of d' ''status'' = Some (PStr ''running'')))
        \<and> (uuid_str uuid4 \<noteq> process_id \<longrightarrow>
              (\<exists>d''. map_of (meta st') (get_process_path process_id) = Some (Parsed (PDict d''))
                  \<and> map_of d'' ''status'' = Some (PStr ''stopped'')))
        \<and> (uuid_str uuid4 = process_id \<longrightarrow>
              (\<forall>pid. outcome = Spawned pid \<longrightarrow>
                 (\<exists>d''. map_of (meta st') (get_process_path process_id) = Some (Parsed (PDict d''))
                     \<and> map_of d'' ''pid'' = Some (PInt pid)
                     \<and> map_of d'' ''status'' = Some (PStr ''running''))))"
  proof (intro exI conjI)
    show "mcp__process_stop env (meta st) process_id = Inr (True, fs', snd (stop_signals env n))"
      by (rule stop)
    show "mcp__process_start uuid4 now outcome (st\<lparr>meta := fs'\<rparr>) c w nm ow = (fst r, snd r)"
      by (simp add: r_def)
    show "mcp__process_restart env uuid4 now outcome st process_id =
             Inr (\<not> startswith (fst r) ''Error'', snd r, snd (stop_signals env n))"
      by (rule restart)
    show "startswith (fst r) ''Error'' \<longleftrightarrow> (\<forall>pid. outcome \<noteq> Spawned pid)"
      by (rule err)
    show "\<forall>pid. outcome = Spawned pid \<longrightarrow>
              fst r = uuid_str uuid4 \<and>
              (\<exists>d'. map_of (meta (snd r)) (get_process_path (fst r)) = Some (Parsed (PDict d'))
                  \<and> map_of d' ''id'' = Some (PStr (fst r))
                  \<and> map_of d' ''command'' = Some c \<and> map_of d' ''cwd'' = Some w
                  \<and> map_of d' ''name'' = Some nm \<and> map_of d' ''owner'' = Some ow
                  \<and> map_of d' ''pid'' = Some (PInt pid)
                  \<and> map_of d' ''status'' = Some (PStr ''running''))"
      by (rule spawned)
    show "uuid_str uuid4 \<noteq> process_id \<longrightarrow>
              (\<exists>d''. map_of (meta (snd r)) (get_process_path process_id) = Some (Parsed (PDict d''))
                  \<and> map_of d'' ''status'' = Some (PStr ''stopped''))"
      by (rule differs)
    show "uuid_str uuid4 = process_id \<longrightarrow>
              (\<forall>pid. outcome = Spawned pid \<longrightarrow>
                 (\<exists>d''. map_of (meta (snd r)) (get_process_path process_id) = Some (Parsed (PDict d''))
                     \<and> map_of d'' ''pid'' = Some (PInt pid)
                     \<and> map_of d'' ''status'' = Some (PStr ''running'')))"
      by (rule repeats)
  qed
qed

theorem process_restart_result_witness:
  "\<exists>st'. mcp__process_restart
     \<lparr>pgid_term = Some 123, term_ok = True, probe = (\<lambda>pid. False), pgid_kill = None, kill_ok = False,
      stop_time = ''2024-07-03T10:30:00''\<rparr>
     0 ''2024-07-03T10:30:02'' (Spawned 456)
     \<lparr>meta = [(''proc_a.json'', Parsed (PDict
                 [(''id'', PStr ''a''), (''name'', PStr ''web''), (''owner'', PStr ''me''),
                  (''command'', PStr ''python app.py''), (''cwd'', PStr ''/tmp''),
                  (''pid'', PInt 123), (''status'', PStr ''running'')]))],
      logs = []\<rparr> ''a''
   = Inr (True, st', [Getpgid 123, Killpg 123 SIGTERM, Sleep 2, Kill 123 SIG0])
   \<and> (\<exists>d'. map_of (meta st') ''proc_00000000-0000-0000-0000-000000000000.json''
               = Some (Parsed (PDict d'))
          \<and> map_of d' ''command'' = Some (PStr ''python app.py''))
   \<and> (\<exists>d''. map_of (meta st') ''proc_a.json'' = Some (Parsed (PDict d''))
          \<and> map_of d'' ''status'' = Some (PStr ''stopped''))"
proof -
  define d where "d = [(''id'', PStr ''a''), (''name'', PStr ''web''), (''owner'', PStr ''me''),
                  (''command'', PStr ''python app.py''), (''cwd'', PStr ''/tmp''),
                  (''pid'', PInt 123), (''status'', PStr ''running'')]"
  define st where "st = \<lparr>meta = [(''proc_a.json'', Parsed (PDict d))], logs = []\<rparr>"
  define env where "env = \<lparr>pgid_term = Some 123, term_ok = True, probe = (\<lambda>pid. False),
      pgid_kill = None, kill_ok = False, stop_time = ''2024-07-03T10:30:00''\<rparr>"
  have "hex32 0 = replicate 32 (CHR ''0'')"
    by (simp add: hex32_def hexdigit_def map_replicate_const)
  then have drawn: "uuid_str 0 = ''00000000-0000-0000-0000-000000000000''"
    by (simp add: uuid_str_def Let_def numeral_eq_Suc)
  have hyp: "map_of (meta st) (get_process_path ''a'') = Some (Parsed (PDict d)) \<and>
       map_of d ''id'' = Some (PStr ''a'') \<and>
       map_of d ''pid'' = Some (PInt 123) \<and> truthy (PInt 123) \<and> pid_arg (PInt 123) = Inr 123 \<and>
       map_of d ''command'' = Some (PStr ''python app.py'') \<and> map_of d ''cwd'' = Some (PStr ''/tmp'') \<and>
       map_of d ''name'' = Some (PStr ''web'') \<and> map_of d ''owner'' = Some (PStr ''me'')"
    by (simp add: st_def d_def get_process_path_def)
  have differs: "uuid_str 0 \<noteq> ''a''"
    by (simp add: drawn)
  have calls: "snd (stop_signals env 123) = [Getpgid 123, Killpg 123 SIGTERM, Sleep 2, Kill 123 SIG0]"
    by (simp add: stop_signals_def env_def is_process_running_def)
  from process_restart_result [of st "''a''" env 0 "''2024-07-03T10:30:02''" "Spawned 456" d
      "PInt 123" 123 "PStr ''python app.py''" "PStr ''/tmp''" "PStr ''web''" "PStr ''me''"]
    hyp differs
  obtain st' where
    "mcp__process_restart env 0 ''2024-07-03T10:30:02'' (Spawned 456) st ''a''
       = Inr (True, st', snd (stop_signals env 123))"
    "\<exists>d'. map_of (meta st') (get_process_path (uuid_str 0)) = Some (Parsed (PDict d'))
          \<and> map_of d' ''command'' = Some (PStr ''python app.py'')"
    "\<exists>d''. map_of (meta st') (get_process_path ''a'') = Some (Parsed (PDict d''))
          \<and> map_of d'' ''status'' = Some (PStr ''stopped'')"
    by auto
  with calls show ?thesis
    unfolding drawn st_def d_def env_def by (auto simp: get_process_path_def)
qed

lemma hex32_repeat:
  "hex32 302240678275694148452352 = ''00000000000040008000000000000000''"
  by (simp add: hex32_def hexdigit_def upt_rec [of _ "numeral _"] upt_rec [of 0])

lemma uuid_str_repeat:
  "uuid_str 302240678275694148452352 = ''00000000-0000-4000-8000-000000000000''"
  by (simp add: uuid_str_def hex32_repeat Let_def)

theorem process_restart_repeat_counterexample:
  "mcp__process_restart
     \<lparr>pgid_term = Some 123, term_ok = True, probe = (\<lambda>pid. False), pgid_kill = None,
      kill_ok = False, stop_time = ''2024-07-03T10:30:00''\<rparr>
     302240678275694148452352 ''2024-07-03T10:30:02'' (Spawned 456)
     \<lparr>meta = [(''proc_00000000-0000-4000-8000-000000000000.json'', Parsed (PDict
                 [(''id'', PStr ''00000000-0000-4000-8000-000000000000''),
                  (''name'', PStr ''web''), (''owner'', PStr ''me''),
                  (''command'', PStr ''python app.py''), (''cwd'', PStr ''/tmp''),
                  (''pid'', PInt 123), (''status'', PStr ''running'')]))],
      logs = []\<rparr>
     ''00000000-0000-4000-8000-000000000000''
   = Inr (True,
       \<lparr>meta = [(''proc_00000000-0000-4000-8000-000000000000.json'', Parsed (PDict
                 [(''id'', PStr ''00000000-0000-4000-8000-000000000000''),
                  (''name'', PStr ''web''), (''owner'', PStr ''me''),
                  (''command'', PStr ''python app.py''), (''cwd'', PStr ''/tmp''),
                  (''pid'', PInt 456), (''status'', PStr ''running''),
                  (''started_at'', PStr ''2024-07-03T10:30:02Z''),
                  (''log_file'', PStr ''/workspaces/.processes/logs/00000000-0000-4000-8000-000000000000.log'')]))],
        logs = [(''00000000-0000-4000-8000-000000000000.log'', [])]\<rparr>,
       [Getpgid 123, Killpg 123 SIGTERM, Sleep 2, Kill 123 SIG0])
   \<and> generate_process_id 302240678275694148452352 = ''00000000-0000-4000-8000-000000000000''"
  by (simp add: mcp__process_restart_def mcp__process_stop_def mcp__process_start_def
      load_process_def try_load_def save_process_def get_process_path_def get_log_path_def
      stop_signals_def is_process_running_def generate_process_id_def uuid_str_repeat
      startswith_def Let_def)

section \<open>Listings\<close>

lemma mapM_total:
  "(\<And>x. x \<in> set xs \<Longrightarrow> f x = Inr (g x)) \<Longrightarrow> py_mapM f xs = Inr (map g xs)"
  by (induction xs) simp_all

lemma load_all_listed:
  "list_all (\<lambda>f. f \<noteq> Undecodable) fs \<Longrightarrow> load_all fs = Inr (List.map_filter parsed_value fs)"
proof (induction fs)
  case Nil
  then show ?case by simp
next
  case (Cons f fs)
  then show ?case
    by (cases f) (simp_all add: try_load_def)
qed

lemma sortable_key:
  "sortable field x \<Longrightarrow> get_default x field (PStr []) = Inr (PStr (sort_field field x))"
  by (cases x; cases "value_of x field (PStr [])")
     (auto simp: sortable_def sort_field_def value_of_def split: option.splits)

lemma newest_first_short: "length xs < 2 \<Longrightarrow> newest_first field xs"
  by (cases xs; cases "tl xs") (auto simp: newest_first_def)

lemma sort_newest_first_sorted:
  assumes "list_all (sortable field) xs"
  shows "\<exists>ys. sort_newest_first field xs = Inr ys \<and> newest_first field ys \<and> mset ys = mset xs"
proof -
  define keys where "keys = map (\<lambda>x. PStr (sort_field field x)) xs"
  have keys: "py_mapM (\<lambda>x. get_default x field (PStr [])) xs = Inr keys"
    unfolding keys_def using assms by (intro mapM_total) (simp add: list_all_iff sortable_key)
  have strs: "list_all is_str keys" by (simp add: keys_def list_all_iff)
  define zs where "zs = zip keys xs"
  have zs: "zs = map (\<lambda>x. (PStr (sort_field field x), x)) xs"
    by (simp add: zs_def keys_def zip_map1 zip_same_conv_map)
  define ys where "ys = map snd (rev (sort_key (\<lambda>kx. the_str (fst kx)) (rev zs)))"
  have run: "sort_newest_first field xs = Inr (if length xs < 2 then xs else ys)"
    by (simp add: sort_newest_first_def keys strs ys_def zs_def)
  have "map snd zs = xs"
    by (simp add: zs comp_def)
  moreover have "mset ys = mset (map snd zs)"
    by (simp add: ys_def)
  ultimately have perm: "mset ys = mset xs"
    by simp
  have in_zs: "\<And>p. p \<in> set (rev (sort_key (\<lambda>kx. the_str (fst kx)) (rev zs))) \<Longrightarrow>
      the_str (fst p) = sort_field field (snd p)"
    by (auto simp: zs)
  have "sorted (map (\<lambda>kx. the_str (fst kx)) (sort_key (\<lambda>kx. the_str (fst kx)) (rev zs)))"
    by (rule sorted_sort_key)
  then have "sorted_wrt (\<lambda>a b. the_str (fst b) \<le> the_str (fst a))
      (rev (sort_key (\<lambda>kx. the_str (fst kx)) (rev zs)))"
    by (simp add: sorted_wrt_rev sorted_map)
  then have "sorted_wrt (\<lambda>a b. sort_field field (snd b) \<le> sort_field field (snd a))
      (rev (sort_key (\<lambda>kx. the_str (fst kx)) (rev zs)))"
    by (rule sorted_wrt_mono_rel [rotated]) (simp add: in_zs)
  then have sorted: "newest_first field ys"
    by (simp add: newest_first_def ys_def sorted_wrt_map)
  show ?thesis
    using run perm sorted newest_first_short [of xs field] by auto
qed

lemma files_ok_readable:
  "files_ok P pre suf fs \<Longrightarrow> list_all (\<lambda>f. f \<noteq> Undecodable) (map snd (glob pre suf fs))"
  by (auto simp: files_ok_def list_all_iff split: file_state.splits)

lemma files_ok_listed:
  "files_ok P pre suf fs \<Longrightarrow> list_all P (listed pre suf fs)"
  by (force simp: files_ok_def listed_def list_all_iff map_filter_def
      split: file_state.splits elim!: parsed_value.elims)

lemma load_all_glob:
  "files_ok P pre suf fs \<Longrightarrow> load_all (map snd (glob pre suf fs)) = Inr (listed pre suf fs)"
  using load_all_listed [OF files_ok_readable, of P pre suf fs]
  by (simp add: listed_def map_filter_def filter_map comp_def)

lemma list_messages_sorted:
  assumes "files_ok (sortable ''timestamp'') ''msg_'' ''.json'' fs"
  shows "\<exists>ms. list_messages fs = Inr ms \<and> newest_first ''timestamp'' ms \<and>
           mset ms = mset (listed ''msg_'' ''.json'' fs)"
  using sort_newest_first_sorted [OF files_ok_listed [OF assms]]
  by (simp add: list_messages_def load_all_glob [OF assms])

lemma update_status_total:
  assumes "process_sortable p"
  shows "update_process_status alive p = Inr (with_status alive p, probes_of p)"
proof -
  from assms obtain d where p: "p = PDict d"
    by (cases p) (auto simp: process_sortable_def sortable_def)
  have pid: "get_default p ''pid'' PNone = Inr (value_of p ''pid'' PNone)"
    by (simp add: p value_of_def split: option.splits)
  from assms have ok: "pid_ok p"
    by (simp add: process_sortable_def)
  show ?thesis
  proof (cases "truthy (value_of p ''pid'' PNone)")
    case False
    then show ?thesis
      using pid by (simp add: update_process_status_def with_status_def probes_of_def
          effective_status_def p)
  next
    case True
    with ok obtain n where "pid_arg (value_of p ''pid'' PNone) = Inr n"
      by (auto simp: pid_ok_def Let_def split: sum.splits)
    with True pid show ?thesis
      by (simp add: update_process_status_def with_status_def probes_of_def
          effective_status_def p)
  qed
qed

lemma list_loop_total:
  assumes "list_all (\<lambda>f. case f of Parsed v \<Rightarrow> process_sortable v | Undecodable \<Rightarrow> False
                          | _ \<Rightarrow> True) fs"
  shows "list_loop alive fs =
     Inr (map (with_status alive) (List.map_filter parsed_value fs),
          concat (map probes_of (List.map_filter parsed_value fs)))"
  using assms
proof (induction fs)
  case Nil
  then show ?case by simp
next
  case (Cons f fs)
  then show ?case
    by (cases f) (simp_all add: try_load_def update_status_total)
qed

lemma with_status_sort_field [simp]:
  "sort_field ''started_at'' (with_status alive p) = sort_field ''started_at'' p"
  by (cases p) (simp_all add: with_status_def sort_field_def value_of_def update_conv')

lemma with_status_sortable:
  "sortable ''started_at'' p \<Longrightarrow> sortable ''started_at'' (with_status alive p)"
  by (cases p) (simp_all add: with_status_def sortable_def update_conv')

lemma list_processes_sorted:
  assumes "files_ok process_sortable ''proc_'' ''.json'' fs"
  shows "\<exists>ps. list_processes alive fs = Inr (ps, concat (map probes_of (listed ''proc_'' ''.json'' fs)))
           \<and> newest_first ''started_at'' ps
           \<and> mset ps = mset (map (with_status alive) (listed ''proc_'' ''.json'' fs))"
proof -
  have files: "list_all (\<lambda>f. case f of Parsed v \<Rightarrow> process_sortable v | Undecodable \<Rightarrow> False
                          | _ \<Rightarrow> True) (map snd (glob ''proc_'' ''.json'' fs))"
    using assms by (simp add: files_ok_def list_all_iff)
  have same: "List.map_filter parsed_value (map snd (glob ''proc_'' ''.json'' fs))
      = listed ''proc_'' ''.json'' fs"
    by (simp add: listed_def map_filter_def filter_map comp_def)
  have loop: "list_loop alive (map snd (glob ''proc_'' ''.json'' fs)) =
     Inr (map (with_status alive) (listed ''proc_'' ''.json'' fs),
          concat (map probes_of (listed ''proc_'' ''.json'' fs)))"
    using list_loop_total [OF files, of alive] by (simp add: same)
  have "list_all (sortable ''started_at'') (map (with_status alive) (listed ''proc_'' ''.json'' fs))"
    using files_ok_listed [OF assms]
    by (simp add: list_all_iff process_sortable_def with_status_sortable)
  from sort_newest_first_sorted [OF this] show ?thesis
    by (auto simp: list_processes_def loop)
qed

lemma is_str_iff: "is_str v \<longleftrightarrow> (\<exists>s. v = PStr s)"
  by (cases v) simp_all

lemma is_list_iff: "is_list v \<longleftrightarrow> (\<exists>xs. v = PList xs)"
  by (cases v) simp_all

lemma newest_first_map:
  "(\<And>x. x \<in> set xs \<Longrightarrow> sort_field field (g x) = sort_field field x) \<Longrightarrow>
   newest_first field xs \<Longrightarrow> newest_first field (map g xs)"
  unfolding newest_first_def sorted_wrt_map
  by (rule sorted_wrt_mono_rel [rotated]) simp_all

lemma newest_first_filter:
  "newest_first field xs \<Longrightarrow> newest_first field (filter P xs)"
  by (simp add: newest_first_def sorted_wrt_filter)

lemma message_ok_sortable: "message_ok m \<Longrightarrow> sortable ''timestamp'' m"
  by (cases m) (auto simp: message_ok_def sortable_def split: option.splits)

lemma files_ok_mono:
  "(\<And>v. P v \<Longrightarrow> Q v) \<Longrightarrow> files_ok P pre suf fs \<Longrightarrow> files_ok Q pre suf fs"
  by (auto simp: files_ok_def list_all_iff split: file_state.splits)

lemma message_ok_summaries:
  assumes "message_ok m"
  shows "list_all_summary m = Inr (list_all_entry m)"
    and "inbox_summary m = Inr (inbox_entry m)"
    and "sort_field ''timestamp'' (list_all_entry m) = sort_field ''timestamp'' m"
    and "sort_field ''timestamp'' (inbox_entry m) = sort_field ''timestamp'' m"
    and "py_bind (get_default m ''to'' (PList [])) (str_in r) = Inr (addressed_to r m)"
  using assms
  by (cases m; auto simp: message_ok_def list_all_summary_def inbox_summary_def list_all_entry_def
      inbox_entry_def sort_field_def value_of_def addressed_to_def is_str_iff is_list_iff
      split: option.splits)+

lemma inbox_loop_total:
  "list_all message_ok ms \<Longrightarrow>
   inbox_loop r ms = Inr (map inbox_entry (filter (addressed_to r) ms))"
proof (induction ms)
  case Nil
  then show ?case by simp
next
  case (Cons m ms)
  then have m: "message_ok m" and IH: "inbox_loop r ms = Inr (map inbox_entry (filter (addressed_to r) ms))"
    by simp_all
  from message_ok_summaries(5) [OF m, of r]
  obtain xs where to: "get_default m ''to'' (PList []) = Inr xs" "str_in r xs = Inr (addressed_to r m)"
    by (cases "get_default m ''to'' (PList [])") auto
  show ?case
    by (simp add: to IH message_ok_summaries(2) [OF m])
qed

lemma mail_listings_sorted:
  assumes ok: "files_ok message_ok ''msg_'' ''.json'' fs"
  shows "\<exists>ms. list_messages fs = Inr ms
           \<and> mset ms = mset (listed ''msg_'' ''.json'' fs)
           \<and> mcp__mail_list_all fs = Inr (map list_all_entry ms)
           \<and> newest_first ''timestamp'' (map list_all_entry ms)
           \<and> mcp__mail_inbox fs to_agent = Inr (map inbox_entry (filter (addressed_to to_agent) ms))
           \<and> newest_first ''timestamp'' (map inbox_entry (filter (addressed_to to_agent) ms))"
proof -
  from list_messages_sorted [OF files_ok_mono [OF message_ok_sortable ok]]
  obtain ms where ms: "list_messages fs = Inr ms" "newest_first ''timestamp'' ms"
      "mset ms = mset (listed ''msg_'' ''.json'' fs)"
    by blast
  from files_ok_listed [OF ok] have "\<forall>m \<in># mset (listed ''msg_'' ''.json'' fs). message_ok m"
    by (simp add: list_all_iff)
  then have all: "list_all message_ok ms"
    unfolding ms(3) [symmetric] by (simp add: list_all_iff)
  have a: "mcp__mail_list_all fs = Inr (map list_all_entry ms)"
    using all by (simp add: mcp__mail_list_all_def ms(1) mapM_total message_ok_summaries(1)
        list_all_iff)
  have b: "newest_first ''timestamp'' (map list_all_entry ms)"
    using all ms(2) by (intro newest_first_map) (simp_all add: message_ok_summaries(3) list_all_iff)
  have c: "mcp__mail_inbox fs to_agent = Inr (map inbox_entry (filter (addressed_to to_agent) ms))"
    by (simp add: mcp__mail_inbox_def ms(1) inbox_loop_total [OF all])
  have d: "newest_first ''timestamp'' (map inbox_entry (filter (addressed_to to_agent) ms))"
    using all ms(2)
    by (intro newest_first_map newest_first_filter)
       (simp_all add: message_ok_summaries(4) list_all_iff)
  show ?thesis
    using ms a b c d by blast
qed

lemma process_ok_sortable: "process_ok p \<Longrightarrow> process_sortable p"
  by (cases p) (auto simp: process_ok_def process_sortable_def sortable_def split: option.splits)

lemma process_ok_summary:
  assumes "process_ok p"
  shows "process_summary (with_status alive p) = Inr (process_entry (with_status alive p))"
    and "sort_field ''started_at'' (process_entry (with_status alive p))
           = sort_field ''started_at'' (with_status alive p)"
    and "get_default (with_status alive p) ''owner'' PNone
           = Inr (value_of (with_status alive p) ''owner'' PNone)"
    and "value_of (process_entry (with_status alive p)) ''status'' PNone
           = PStr (effective_status alive p)"
  using assms
  by (cases p; auto simp: process_ok_def process_summary_def process_entry_def with_status_def
      sort_field_def value_of_def update_conv' is_str_iff split: option.splits)+

lemma owned_by_total:
  "(\<And>p. p \<in> set ps \<Longrightarrow> get_default p ''owner'' PNone = Inr (value_of p ''owner'' PNone)) \<Longrightarrow>
   owned_by ow ps = Inr (filter (\<lambda>p. value_of p ''owner'' PNone = PStr ow) ps)"
  by (induction ps) simp_all

lemma process_list_sorted:
  assumes ok: "files_ok process_ok ''proc_'' ''.json'' fs"
  shows "\<exists>ps. list_processes alive fs =
                 Inr (ps, concat (map probes_of (listed ''proc_'' ''.json'' fs)))
           \<and> mset ps = mset (map (with_status alive) (listed ''proc_'' ''.json'' fs))
           \<and> mcp__process_list alive fs owner =
               Inr (map process_entry
                      (case owner of
                         None \<Rightarrow> ps
                       | Some ow \<Rightarrow> if ow = [] then ps
                                    else filter (\<lambda>p. value_of p ''owner'' PNone = PStr ow) ps),
                    concat (map probes_of (listed ''proc_'' ''.json'' fs)))
           \<and> newest_first ''started_at''
               (map process_entry
                      (case owner of
                         None \<Rightarrow> ps
                       | Some ow \<Rightarrow> if ow = [] then ps
                                    else filter (\<lambda>p. value_of p ''owner'' PNone = PStr ow) ps))"
proof -
  from list_processes_sorted [OF files_ok_mono [OF process_ok_sortable ok], of alive]
  obtain ps where ps: "list_processes alive fs =
        Inr (ps, concat (map probes_of (listed ''proc_'' ''.json'' fs)))"
      "newest_first ''started_at'' ps"
      "mset ps = mset (map (with_status alive) (listed ''proc_'' ''.json'' fs))"
    by blast
  from files_ok_listed [OF ok]
  have "\<forall>p \<in># mset (map (with_status alive) (listed ''proc_'' ''.json'' fs)).
          \<exists>q. process_ok q \<and> p = with_status alive q"
    by (auto simp: list_all_iff)
  then have all: "\<And>p. p \<in> set ps \<Longrightarrow> \<exists>q. process_ok q \<and> p = with_status alive q"
    unfolding ps(3) [symmetric] by simp
  define sel where "sel = (case owner of
                         None \<Rightarrow> ps
                       | Some ow \<Rightarrow> if ow = [] then ps
                                    else filter (\<lambda>p. value_of p ''owner'' PNone = PStr ow) ps)"
  have sub: "set sel \<subseteq> set ps"
    by (auto simp: sel_def split: option.splits)
  have owned: "(case owner of None \<Rightarrow> Inr ps
                | Some ow \<Rightarrow> if ow = [] then Inr ps else owned_by ow ps) = Inr sel"
    using all by (auto simp: sel_def split: option.splits intro!: owned_by_total
        dest!: all simp: process_ok_summary(3))
  have sums: "py_mapM process_summary sel = Inr (map process_entry sel)"
  proof (intro mapM_total)
    fix p assume "p \<in> set sel"
    with sub all obtain q where "process_ok q" "p = with_status alive q" by blast
    then show "process_summary p = Inr (process_entry p)"
      by (simp add: process_ok_summary(1))
  qed
  have run: "mcp__process_list alive fs owner =
      Inr (map process_entry sel, concat (map probes_of (listed ''proc_'' ''.json'' fs)))"
    by (simp add: mcp__process_list_def ps(1) owned sums)
  have "newest_first ''started_at'' sel"
    using ps(2) by (auto simp: sel_def newest_first_filter split: option.splits)
  moreover have "\<And>p. p \<in> set sel \<Longrightarrow>
      sort_field ''started_at'' (process_entry p) = sort_field ''started_at'' p"
  proof -
    fix p assume "p \<in> set sel"
    with sub all obtain q where "process_ok q" "p = with_status alive q" by blast
    then show "sort_field ''started_at'' (process_entry p) = sort_field ''started_at'' p"
      by (simp add: process_ok_summary(2))
  qed
  ultimately have "newest_first ''started_at'' (map process_entry sel)"
    by (intro newest_first_map)
  then show ?thesis
    using ps run unfolding sel_def by blast
qed

text \<open>
  What the listings do on stores they can list. When every file that matches parses to a
  dictionary whose timestamp, if present, is a string, or is not JSON, or cannot be read,
  \<^verbatim>\<open>list_messages\<close> and \<^verbatim>\<open>list_processes\<close> (there with a usable process identifier)
  return the records of the files that parse, newest first, a record without timestamp ordered
  as the empty string. When moreover every record has the fields that the summaries read by
  subscript, with a string timestamp and a list of recipients, the three listing operations
  return their summaries in that order.
\<close>

lemma listings_newest_first:
  "(files_ok (sortable ''timestamp'') ''msg_'' ''.json'' mail \<longrightarrow>
      (\<exists>ms. list_messages mail = Inr ms \<and> newest_first ''timestamp'' ms \<and>
            mset ms = mset (listed ''msg_'' ''.json'' mail)))
   \<and> (files_ok process_sortable ''proc_'' ''.json'' procs \<longrightarrow>
      (\<exists>ps calls. list_processes alive procs = Inr (ps, calls) \<and> newest_first ''started_at'' ps \<and>
            mset ps = mset (map (with_status alive) (listed ''proc_'' ''.json'' procs))))
   \<and> (files_ok message_ok ''msg_'' ''.json'' mail \<longrightarrow>
      (\<exists>ms. list_messages mail = Inr ms
           \<and> mset ms = mset (listed ''msg_'' ''.json'' mail)
           \<and> mcp__mail_list_all mail = Inr (map list_all_entry ms)
           \<and> newest_first ''timestamp'' (map list_all_entry ms)
           \<and> mcp__mail_inbox mail to_agent =
                Inr (map inbox_entry (filter (addressed_to to_agent) ms))
           \<and> newest_first ''timestamp'' (map inbox_entry (filter (addressed_to to_agent) ms))))
   \<and> (files_ok process_ok ''proc_'' ''.json'' procs \<longrightarrow>
      (\<exists>ps calls shown. list_processes alive procs = Inr (ps, calls)
           \<and> mset ps = mset (map (with_status alive) (listed ''proc_'' ''.json'' procs))
           \<and> shown = (case owner of
                         None \<Rightarrow> ps
                       | Some ow \<Rightarrow> if ow = [] then ps
                                    else filter (\<lambda>p. value_of p ''owner'' PNone = PStr ow) ps)
           \<and> mcp__process_list alive procs owner = Inr (map process_entry shown, calls)
           \<and> newest_first ''started_at'' (map process_entry shown)))"
proof (intro conjI impI)
  assume "files_ok (sortable ''timestamp'') ''msg_'' ''.json'' mail"
  then show "\<exists>ms. list_messages mail = Inr ms \<and> newest_first ''timestamp'' ms \<and>
            mset ms = mset (listed ''msg_'' ''.json'' mail)"
    by (rule list_messages_sorted)
next
  assume "files_ok process_sortable ''proc_'' ''.json'' procs"
  from list_processes_sorted [OF this, of alive]
  show "\<exists>ps calls. list_processes alive procs = Inr (ps, calls) \<and> newest_first ''started_at'' ps \<and>
            mset ps = mset (map (with_status alive) (listed ''proc_'' ''.json'' procs))"
    by blast
next
  assume "files_ok message_ok ''msg_'' ''.json'' mail"
  then show "\<exists>ms. list_messages mail = Inr ms
           \<and> mset ms = mset (listed ''msg_'' ''.json'' mail)
           \<and> mcp__mail_list_all mail = Inr (map list_all_entry ms)
           \<and> newest_first ''timestamp'' (map list_all_entry ms)
           \<and> mcp__mail_inbox mail to_agent =
                Inr (map inbox_entry (filter (addressed_to to_agent) ms))
           \<and> newest_first ''timestamp'' (map inbox_entry (filter (addressed_to to_agent) ms))"
    by (rule mail_listings_sorted)
next
  assume "files_ok process_ok ''proc_'' ''.json'' procs"
  from process_list_sorted [OF this, of alive owner]
  show "\<exists>ps calls shown. list_processes alive procs = Inr (ps, calls)
           \<and> mset ps = mset (map (with_status alive) (listed ''proc_'' ''.json'' procs))
           \<and> shown = (case owner of
                         None \<Rightarrow> ps
                       | Some ow \<Rightarrow> if ow = [] then ps
                                    else filter (\<lambda>p. value_of p ''owner'' PNone = PStr ow) ps)
           \<and> mcp__process_list alive procs owner = Inr (map process_entry shown, calls)
           \<and> newest_first ''started_at'' (map process_entry shown)"
    by blast
qed

text \<open>
  C4. Every listing operation is to return its entries newest first, an entry without timestamp
  ordered as the empty string, and to leave out a file that fails to parse without raising.
  The sort of \<^verbatim>\<open>list_messages\<close> and \<^verbatim>\<open>list_processes\<close> does order a record without
  timestamp as the empty string, but the summaries then read the timestamp by subscript: on a
  store holding one such record the list of all mail and the inbox of its recipient raise
  \<^verbatim>\<open>KeyError\<close>, and so does the process list on a record without \<open>started_at\<close>. A file
  whose bytes are not text in the encoding of \<^verbatim>\<open>open\<close> is not left out either: the
  \<^verbatim>\<open>UnicodeDecodeError\<close> of \<^verbatim>\<open>json.load\<close> is not among the exceptions the loop catches.
\<close>

theorem listings_raise_on_missing_timestamp:
  "list_messages
     [(''msg_a.json'', Parsed (PDict [(''id'', PStr ''a''), (''from'', PStr ''x''),
        (''to'', PList [PStr ''y'']), (''subject'', PStr ''s''), (''body'', PStr ''b''),
        (''read'', PBool False)]))]
   = Inr [PDict [(''id'', PStr ''a''), (''from'', PStr ''x''),
        (''to'', PList [PStr ''y'']), (''subject'', PStr ''s''), (''body'', PStr ''b''),
        (''read'', PBool False)]]
   \<and> mcp__mail_list_all
     [(''msg_a.json'', Parsed (PDict [(''id'', PStr ''a''), (''from'', PStr ''x''),
        (''to'', PList [PStr ''y'']), (''subject'', PStr ''s''), (''body'', PStr ''b''),
        (''read'', PBool False)]))]
   = Inl (KeyError ''timestamp'')
   \<and> mcp__mail_inbox
     [(''msg_a.json'', Parsed (PDict [(''id'', PStr ''a''), (''from'', PStr ''x''),
        (''to'', PList [PStr ''y'']), (''subject'', PStr ''s''), (''body'', PStr ''b''),
        (''read'', PBool False)]))] ''y''
   = Inl (KeyError ''timestamp'')
   \<and> list_processes (\<lambda>pid. True)
     [(''proc_p.json'', Parsed (PDict [(''id'', PStr ''p''), (''name'', PStr ''web''),
        (''owner'', PStr ''me''), (''pid'', PInt 123)]))]
   = Inr ([PDict [(''id'', PStr ''p''), (''name'', PStr ''web''), (''owner'', PStr ''me''),
                  (''pid'', PInt 123), (''status'', PStr ''running'')]], [Kill 123 SIG0])
   \<and> mcp__process_list (\<lambda>pid. True)
     [(''proc_p.json'', Parsed (PDict [(''id'', PStr ''p''), (''name'', PStr ''web''),
        (''owner'', PStr ''me''), (''pid'', PInt 123)]))] None
   = Inl (KeyError ''started_at'')
   \<and> list_messages [(''msg_b.json'', Undecodable)] = Inl UnicodeDecodeError
   \<and> mcp__mail_list_all [(''msg_b.json'', Undecodable)] = Inl UnicodeDecodeError
   \<and> mcp__mail_inbox [(''msg_b.json'', Undecodable)] ''y'' = Inl UnicodeDecodeError
   \<and> mcp__process_list (\<lambda>pid. True) [(''proc_q.json'', Undecodable)] None
         = Inl UnicodeDecodeError"
  by (simp add: list_messages_def mcp__mail_list_all_def mcp__mail_inbox_def glob_def
      glob_match_def try_load_def sort_newest_first_def list_all_summary_def inbox_summary_def
      mcp__process_list_def list_processes_def update_process_status_def process_summary_def)

lemma listings_newest_first_example:
  "\<exists>ms ps calls.
     list_messages
       [(''msg_a.json'', Parsed (PDict [(''id'', PStr ''a''), (''from'', PStr ''x''),
          (''to'', PList [PStr ''y'']), (''subject'', PStr ''s''),
          (''timestamp'', PStr ''2024-07-03T10:30:00Z'')])),
        (''msg_b.json'', Malformed),
        (''msg_c.json'', Parsed (PDict [(''id'', PStr ''c''), (''from'', PStr ''x''),
          (''to'', PList [PStr ''z'']), (''subject'', PStr ''s''),
          (''timestamp'', PStr ''2024-07-04T10:30:00Z'')]))] = Inr ms
     \<and> newest_first ''timestamp'' ms
     \<and> mcp__mail_list_all
       [(''msg_a.json'', Parsed (PDict [(''id'', PStr ''a''), (''from'', PStr ''x''),
          (''to'', PList [PStr ''y'']), (''subject'', PStr ''s''),
          (''timestamp'', PStr ''2024-07-03T10:30:00Z'')])),
        (''msg_b.json'', Malformed),
        (''msg_c.json'', Parsed (PDict [(''id'', PStr ''c''), (''from'', PStr ''x''),
          (''to'', PList [PStr ''z'']), (''subject'', PStr ''s''),
          (''timestamp'', PStr ''2024-07-04T10:30:00Z'')]))] = Inr (map list_all_entry ms)
     \<and> list_processes (\<lambda>pid. True)
       [(''proc_p.json'', Parsed (PDict [(''id'', PStr ''p''), (''name'', PStr ''web''),
          (''owner'', PStr ''me''), (''pid'', PInt 123),
          (''started_at'', PStr ''2024-07-03T10:30:00Z'')])),
        (''proc_q.json'', Unreadable)] = Inr (ps, calls)
     \<and> newest_first ''started_at'' ps"
proof -
  define mail where "mail =
       [(''msg_a.json'', Parsed (PDict [(''id'', PStr ''a''), (''from'', PStr ''x''),
          (''to'', PList [PStr ''y'']), (''subject'', PStr ''s''),
          (''timestamp'', PStr ''2024-07-03T10:30:00Z'')])),
        (''msg_b.json'', Malformed),
        (''msg_c.json'', Parsed (PDict [(''id'', PStr ''c''), (''from'', PStr ''x''),
          (''to'', PList [PStr ''z'']), (''subject'', PStr ''s''),
          (''timestamp'', PStr ''2024-07-04T10:30:00Z'')]))]"
  define procs where "procs =
       [(''proc_p.json'', Parsed (PDict [(''id'', PStr ''p''), (''name'', PStr ''web''),
          (''owner'', PStr ''me''), (''pid'', PInt 123),
          (''started_at'', PStr ''2024-07-03T10:30:00Z'')])),
        (''proc_q.json'', Unreadable)]"
  have m1: "files_ok (sortable ''timestamp'') ''msg_'' ''.json'' mail"
    by (simp add: files_ok_def glob_def glob_match_def mail_def sortable_def)
  have m2: "files_ok message_ok ''msg_'' ''.json'' mail"
    by (simp add: files_ok_def glob_def glob_match_def mail_def message_ok_def)
  have p1: "files_ok process_sortable ''proc_'' ''.json'' procs"
    by (simp add: files_ok_def glob_def glob_match_def procs_def process_sortable_def
        sortable_def pid_ok_def value_of_def)
  have p2: "files_ok process_ok ''proc_'' ''.json'' procs"
    by (simp add: files_ok_def glob_def glob_match_def procs_def process_ok_def
        pid_ok_def value_of_def)
  from listings_newest_first [of mail procs "\<lambda>pid. True" "''y''" None] m1 m2 p1 p2
  have "\<exists>ms ps calls. list_messages mail = Inr ms \<and> newest_first ''timestamp'' ms
     \<and> mcp__mail_list_all mail = Inr (map list_all_entry ms)
     \<and> list_processes (\<lambda>pid. True) procs = Inr (ps, calls)
     \<and> newest_first ''started_at'' ps"
    by (elim conjE impE exE) auto
  then show ?thesis
    by (simp only: mail_def procs_def)
qed

section \<open>Cleaning up stopped processes\<close>

lemma listed_set:
  "set (listed pre suf fs) = {v. \<exists>name. (name, Parsed v) \<in> set (glob pre suf fs)}"
proof -
  have "\<And>f v. parsed_value f = Some v \<longleftrightarrow> f = Parsed v"
    by (case_tac f) auto
  then show ?thesis
    by (force simp: listed_def map_filter_def image_iff)
qed

lemma glob_set:
  "(name, f) \<in> set (glob pre suf fs) \<longleftrightarrow> (name, f) \<in> set fs \<and> glob_match pre suf name"
  by (auto simp: glob_def)

lemma with_status_fields:
  "value_of (with_status alive (PDict d)) ''status'' PNone = PStr (effective_status alive (PDict d))"
  "value_of (with_status alive (PDict d)) ''id'' PNone = value_of (PDict d) ''id'' PNone"
  "getitem (with_status alive (PDict d)) ''status'' = Inr (PStr (effective_status alive (PDict d)))"
  "getitem (with_status alive (PDict d)) ''id'' = getitem (PDict d) ''id''"
  by (simp_all add: with_status_def value_of_def update_conv')

lemma value_of_id:
  "map_of d ''id'' = Some (PStr i) \<Longrightarrow> value_of (PDict d) ''id'' PNone = PStr i"
  by (simp add: value_of_def)

lemma cleanup_loop_total:
  assumes "\<And>p. p \<in> set ps \<Longrightarrow>
             \<exists>s i. getitem p ''status'' = Inr (PStr s) \<and> getitem p ''id'' = Inr (PStr i)"
  shows "\<exists>fs'. cleanup_loop lg ps fs k =
            Inr (fs', k + int (length (filter (\<lambda>p. getitem p ''status'' = Inr (PStr ''stopped'')) ps)))
          \<and> (\<forall>name. map_of fs' name =
                (if \<exists>p \<in> set ps. getitem p ''status'' = Inr (PStr ''stopped'') \<and>
                       getitem p ''id'' = Inr (PStr (the_str (value_of p ''id'' PNone))) \<and>
                       name = get_process_path (the_str (value_of p ''id'' PNone))
                 then None else map_of fs name))"
  using assms
proof (induction ps arbitrary: fs k)
  case Nil
  then show ?case by simp
next
  case (Cons p ps)
  from Cons.prems [of p] obtain s i where
    p: "getitem p ''status'' = Inr (PStr s)" "getitem p ''id'' = Inr (PStr i)"
    by auto
  then have vid: "value_of p ''id'' PNone = PStr i"
    by (cases p) (auto simp: value_of_def split: option.splits)
  have rest: "\<And>q. q \<in> set ps \<Longrightarrow>
             \<exists>s i. getitem q ''status'' = Inr (PStr s) \<and> getitem q ''id'' = Inr (PStr i)"
    using Cons.prems by simp
  show ?case
  proof (cases "s = ''stopped''")
    case False
    from Cons.IH [OF rest, of fs k] obtain fs' where
      "cleanup_loop lg ps fs k =
            Inr (fs', k + int (length (filter (\<lambda>p. getitem p ''status'' = Inr (PStr ''stopped'')) ps)))"
      "\<forall>name. map_of fs' name =
                (if \<exists>p \<in> set ps. getitem p ''status'' = Inr (PStr ''stopped'') \<and>
                       getitem p ''id'' = Inr (PStr (the_str (value_of p ''id'' PNone))) \<and>
                       name = get_process_path (the_str (value_of p ''id'' PNone))
                 then None else map_of fs name)"
      by blast
    with False p show ?thesis
      by (intro exI [of _ fs']) simp
  next
    case True
    define fs1 where "fs1 = (if map_of fs (get_process_path i) \<noteq> None
                             then AList.delete (get_process_path i) fs else fs)"
    have fs1: "map_of fs1 = (map_of fs)(get_process_path i := None)"
      by (auto simp: fs1_def delete_conv')
    from Cons.IH [OF rest, of fs1 "k + 1"] obtain fs' where
      run: "cleanup_loop lg ps fs1 (k + 1) =
            Inr (fs', k + 1 + int (length (filter (\<lambda>p. getitem p ''status'' = Inr (PStr ''stopped'')) ps)))"
      and look: "\<forall>name. map_of fs' name =
                (if \<exists>p \<in> set ps. getitem p ''status'' = Inr (PStr ''stopped'') \<and>
                       getitem p ''id'' = Inr (PStr (the_str (value_of p ''id'' PNone))) \<and>
                       name = get_process_path (the_str (value_of p ''id'' PNone))
                 then None else map_of fs1 name)"
      by blast
    have "cleanup_loop lg (p # ps) fs k =
            Inr (fs', k + int (length (filter (\<lambda>p. getitem p ''status'' = Inr (PStr ''stopped'')) (p # ps))))"
      using True p run by (simp add: Let_def fs1_def)
    moreover have "\<forall>name. map_of fs' name =
                (if \<exists>q \<in> set (p # ps). getitem q ''status'' = Inr (PStr ''stopped'') \<and>
                       getitem q ''id'' = Inr (PStr (the_str (value_of q ''id'' PNone))) \<and>
                       name = get_process_path (the_str (value_of q ''id'' PNone))
                 then None else map_of fs name)"
      using look True p vid by (auto simp: fs1)
    ultimately show ?thesis by blast
  qed
qed

lemma held_record:
  assumes "held_under_id (name, Parsed v)" "process_sortable v"
  shows "\<exists>d i. v = PDict d \<and> map_of d ''id'' = Some (PStr i) \<and> name = get_process_path i"
proof -
  from assms(2) obtain d where "v = PDict d"
    by (cases v) (auto simp: process_sortable_def sortable_def)
  with assms(1) show ?thesis
    by (auto simp: held_under_id_def split: option.splits sum.splits pyval.splits)
qed

text \<open>
  C5. \<^verbatim>\<open>mcp__process_cleanup\<close> removes the metadata file of exactly those listed processes
  whose effective status, as probed, is \<open>stopped\<close>; every other file of the process directory,
  so the metadata of every running process and of every process of unknown status, is as before,
  and so is every log. It returns the number of processes removed and, as the remaining
  number, the number of processes listed less those removed. The store is one whose metadata
  files are held under the identifier of their record, as \<^verbatim>\<open>save_process\<close> writes them.
\<close>

theorem process_cleanup_removes_stopped:
  assumes names: "distinct (map fst (meta st))"
      and files: "files_ok process_sortable ''proc_'' ''.json'' (meta st)"
      and held: "list_all held_under_id (glob ''proc_'' ''.json'' (meta st))"
  shows "\<exists>st' calls.
     mcp__process_cleanup alive st =
       Inr (PDict [(''cleaned_processes'',
                     PInt (int (length (filter (\<lambda>p. effective_status alive p = ''stopped'')
                                          (listed ''proc_'' ''.json'' (meta st)))))),
                   (''remaining_processes'',
                     PInt (int (length (listed ''proc_'' ''.json'' (meta st))) -
                           int (length (filter (\<lambda>p. effective_status alive p = ''stopped'')
                                          (listed ''proc_'' ''.json'' (meta st))))))],
            st', calls)
     \<and> (\<forall>name. map_of (meta st') name =
           (if glob_match ''proc_'' ''.json'' name \<and>
               (\<exists>v. map_of (meta st) name = Some (Parsed v) \<and> effective_status alive v = ''stopped'')
            then None else map_of (meta st) name))
     \<and> logs st' = logs st"
proof -
  define L where "L = listed ''proc_'' ''.json'' (meta st)"
  define stopped where "stopped = (\<lambda>p. getitem p ''status'' = Inr (PStr ''stopped''))"
  from list_processes_sorted [OF files, of alive] obtain ps where
    ps: "list_processes alive (meta st) = Inr (ps, concat (map probes_of L))"
        "mset ps = mset (map (with_status alive) L)"
    unfolding L_def by blast
  have set_ps: "set ps = with_status alive ` set L"
    using ps(2) by (metis mset_eq_setD set_map)
  have inL: "\<And>q. q \<in> set L \<Longrightarrow> \<exists>name d i. (name, Parsed q) \<in> set (meta st) \<and>
      glob_match ''proc_'' ''.json'' name \<and> q = PDict d \<and> map_of d ''id'' = Some (PStr i) \<and>
      name = get_process_path i"
  proof -
    fix q assume "q \<in> set L"
    then obtain name where g: "(name, Parsed q) \<in> set (glob ''proc_'' ''.json'' (meta st))"
      by (auto simp: L_def listed_set)
    with held have h: "held_under_id (name, Parsed q)"
      by (auto simp: list_all_iff)
    from g files have "process_sortable q"
      by (auto simp: files_ok_def list_all_iff)
    from held_record [OF h this] g show "\<exists>name d i. (name, Parsed q) \<in> set (meta st) \<and>
      glob_match ''proc_'' ''.json'' name \<and> q = PDict d \<and> map_of d ''id'' = Some (PStr i) \<and>
      name = get_process_path i"
      by (auto simp: glob_set)
  qed
  have fields: "\<And>p. p \<in> set ps \<Longrightarrow>
             \<exists>s i. getitem p ''status'' = Inr (PStr s) \<and> getitem p ''id'' = Inr (PStr i)"
  proof -
    fix p assume "p \<in> set ps"
    then obtain q where "q \<in> set L" "p = with_status alive q"
      by (auto simp: set_ps)
    with inL [of q] show "\<exists>s i. getitem p ''status'' = Inr (PStr s) \<and> getitem p ''id'' = Inr (PStr i)"
      by (auto simp: with_status_fields)
  qed
  from cleanup_loop_total [OF fields, of ps "logs st" "meta st" 0] obtain fs' where
    run: "cleanup_loop (logs st) ps (meta st) 0 = Inr (fs', int (length (filter stopped ps)))"
    and look: "\<forall>name. map_of fs' name =
                (if \<exists>p \<in> set ps. getitem p ''status'' = Inr (PStr ''stopped'') \<and>
                       getitem p ''id'' = Inr (PStr (the_str (value_of p ''id'' PNone))) \<and>
                       name = get_process_path (the_str (value_of p ''id'' PNone))
                 then None else map_of (meta st) name)"
    unfolding stopped_def by auto
  have stopped_ws: "\<And>q. q \<in> set L \<Longrightarrow>
      stopped (with_status alive q) \<longleftrightarrow> effective_status alive q = ''stopped''"
  proof -
    fix q assume "q \<in> set L"
    from inL [OF this] obtain d where "q = PDict d" by blast
    then show "stopped (with_status alive q) \<longleftrightarrow> effective_status alive q = ''stopped''"
      by (simp add: stopped_def with_status_fields)
  qed
  have "size (filter_mset stopped (mset ps)) =
        size (filter_mset stopped (mset (map (with_status alive) L)))"
    by (simp add: ps(2))
  then have "length (filter stopped ps) = length (filter stopped (map (with_status alive) L))"
    by (simp only: mset_filter [symmetric] size_mset)
  also have "\<dots> = length (filter (\<lambda>q. effective_status alive q = ''stopped'') L)"
    using stopped_ws by (simp add: filter_map comp_def cong: filter_cong)
  finally have count: "length (filter stopped ps) =
      length (filter (\<lambda>q. effective_status alive q = ''stopped'') L)" .
  have len: "length ps = length L"
    using ps(2) by (metis length_map size_mset)
  have names_iff: "\<And>name.
      (\<exists>p \<in> set ps. getitem p ''status'' = Inr (PStr ''stopped'') \<and>
                       getitem p ''id'' = Inr (PStr (the_str (value_of p ''id'' PNone))) \<and>
                       name = get_process_path (the_str (value_of p ''id'' PNone)))
      \<longleftrightarrow> glob_match ''proc_'' ''.json'' name \<and>
               (\<exists>v. map_of (meta st) name = Some (Parsed v) \<and> effective_status alive v = ''stopped'')"
  proof
    fix name
    assume "\<exists>p \<in> set ps. getitem p ''status'' = Inr (PStr ''stopped'') \<and>
                       getitem p ''id'' = Inr (PStr (the_str (value_of p ''id'' PNone))) \<and>
                       name = get_process_path (the_str (value_of p ''id'' PNone))"
    then obtain q where q: "q \<in> set L" "stopped (with_status alive q)"
        "name = get_process_path (the_str (value_of (with_status alive q) ''id'' PNone))"
      by (auto simp: set_ps stopped_def)
    from inL [OF q(1)] obtain n d i where
      d: "(n, Parsed q) \<in> set (meta st)" "glob_match ''proc_'' ''.json'' n" "q = PDict d"
         "map_of d ''id'' = Some (PStr i)" "n = get_process_path i"
      by blast
    then have "name = n"
      using q(3) by (simp add: with_status_fields value_of_id)
    moreover from d(1) names have "map_of (meta st) n = Some (Parsed q)"
      by simp
    ultimately show "glob_match ''proc_'' ''.json'' name \<and>
               (\<exists>v. map_of (meta st) name = Some (Parsed v) \<and> effective_status alive v = ''stopped'')"
      using d(2) q(1,2) stopped_ws by auto
  next
    fix name
    assume "glob_match ''proc_'' ''.json'' name \<and>
               (\<exists>v. map_of (meta st) name = Some (Parsed v) \<and> effective_status alive v = ''stopped'')"
    then obtain v where v: "glob_match ''proc_'' ''.json'' name"
        "map_of (meta st) name = Some (Parsed v)" "effective_status alive v = ''stopped''"
      by blast
    then have "(name, Parsed v) \<in> set (glob ''proc_'' ''.json'' (meta st))"
      by (auto simp: glob_set dest: map_of_SomeD)
    then have vL: "v \<in> set L"
      by (auto simp: L_def listed_set)
    from inL [OF vL] obtain n d i where
      d: "(n, Parsed v) \<in> set (meta st)" "v = PDict d"
         "map_of d ''id'' = Some (PStr i)" "n = get_process_path i"
      by blast
    from d(1) names have "map_of (meta st) n = Some (Parsed v)" by simp
    have "n = name"
    proof -
      from v(2) have "(name, Parsed v) \<in> set (meta st)" by (rule map_of_SomeD)
      then have h: "held_under_id (name, Parsed v)"
        using held v(1) by (auto simp: list_all_iff glob_set)
      then show ?thesis
        using d by (simp add: held_under_id_def)
    qed
    with d vL v(3) stopped_ws [OF vL]
    show "\<exists>p \<in> set ps. getitem p ''status'' = Inr (PStr ''stopped'') \<and>
                       getitem p ''id'' = Inr (PStr (the_str (value_of p ''id'' PNone))) \<and>
                       name = get_process_path (the_str (value_of p ''id'' PNone))"
      by (intro bexI [of _ "with_status alive v"])
         (auto simp: set_ps stopped_def with_status_fields value_of_id)
  qed
  have result: "mcp__process_cleanup alive st =
       Inr (PDict [(''cleaned_processes'', PInt (int (length (filter stopped ps)))),
                   (''remaining_processes'',
                     PInt (int (length ps) - int (length (filter stopped ps))))],
            st\<lparr>meta := fs'\<rparr>, concat (map probes_of L))"
    by (simp add: mcp__process_cleanup_def ps(1) run)
  show ?thesis
    apply (rule exI [of _ "st\<lparr>meta := fs'\<rparr>"])
    apply (rule exI [of _ "concat (map probes_of L)"])
    using result look names_iff
    apply (simp add: count len L_def)
    done
qed

theorem process_cleanup_removes_stopped_witness:
  "\<exists>st' calls.
     mcp__process_cleanup (\<lambda>pid. pid = 1)
       \<lparr>meta = [(''proc_a.json'', Parsed (PDict [(''id'', PStr ''a''), (''pid'', PInt 1),
                    (''started_at'', PStr ''2024-07-03T10:30:00Z'')])),
                (''proc_b.json'', Parsed (PDict [(''id'', PStr ''b''), (''pid'', PInt 2),
                    (''started_at'', PStr ''2024-07-04T10:30:00Z'')]))],
        logs = [(''a.log'', ''started''), (''b.log'', ''started'')]\<rparr>
     = Inr (PDict [(''cleaned_processes'', PInt 1), (''remaining_processes'', PInt 1)], st', calls)
     \<and> map_of (meta st') ''proc_b.json'' = None
     \<and> map_of (meta st') ''proc_a.json'' =
           Some (Parsed (PDict [(''id'', PStr ''a''), (''pid'', PInt 1),
                    (''started_at'', PStr ''2024-07-03T10:30:00Z'')]))
     \<and> logs st' = [(''a.log'', ''started''), (''b.log'', ''started'')]"
proof -
  define st where "st =
       \<lparr>meta = [(''proc_a.json'', Parsed (PDict [(''id'', PStr ''a''), (''pid'', PInt 1),
                    (''started_at'', PStr ''2024-07-03T10:30:00Z'')])),
                (''proc_b.json'', Parsed (PDict [(''id'', PStr ''b''), (''pid'', PInt 2),
                    (''started_at'', PStr ''2024-07-04T10:30:00Z'')]))],
        logs = [(''a.log'', ''started''), (''b.log'', ''started'')]\<rparr>"
  have names: "distinct (map fst (meta st))"
    by (simp add: st_def)
  have files: "files_ok process_sortable ''proc_'' ''.json'' (meta st)"
    by (simp add: st_def files_ok_def glob_def glob_match_def process_sortable_def sortable_def
        pid_ok_def value_of_def)
  have held: "list_all held_under_id (glob ''proc_'' ''.json'' (meta st))"
    by (simp add: st_def glob_def glob_match_def held_under_id_def get_process_path_def)
  have records: "listed ''proc_'' ''.json'' (meta st) =
      [PDict [(''id'', PStr ''a''), (''pid'', PInt 1),
              (''started_at'', PStr ''2024-07-03T10:30:00Z'')],
       PDict [(''id'', PStr ''b''), (''pid'', PInt 2),
              (''started_at'', PStr ''2024-07-04T10:30:00Z'')]]"
    by (simp add: st_def listed_def glob_def glob_match_def)
  have status: "effective_status (\<lambda>pid. pid = 1) (PDict [(''id'', PStr ''a''), (''pid'', PInt 1),
              (''started_at'', PStr ''2024-07-03T10:30:00Z'')]) = ''running''"
     "effective_status (\<lambda>pid. pid = 1) (PDict [(''id'', PStr ''b''), (''pid'', PInt 2),
              (''started_at'', PStr ''2024-07-04T10:30:00Z'')]) = ''stopped''"
    by (simp_all add: effective_status_def value_of_def)
  have matches: "glob_match ''proc_'' ''.json'' ''proc_a.json''"
      "glob_match ''proc_'' ''.json'' ''proc_b.json''"
    by (simp_all add: glob_match_def)
  from process_cleanup_removes_stopped [OF names files held, of "\<lambda>pid. pid = 1"]
  obtain st' calls where
    run: "mcp__process_cleanup (\<lambda>pid. pid = 1) st =
       Inr (PDict [(''cleaned_processes'', PInt 1), (''remaining_processes'', PInt 1)], st', calls)"
    and look: "\<forall>name. map_of (meta st') name =
           (if glob_match ''proc_'' ''.json'' name \<and>
               (\<exists>v. map_of (meta st) name = Some (Parsed v) \<and>
                    effective_status (\<lambda>pid. pid = 1) v = ''stopped'')
            then None else map_of (meta st) name)"
    and lg: "logs st' = logs st"
    by (auto simp: records status)
  have file_a: "map_of (meta st) ''proc_a.json'' =
           Some (Parsed (PDict [(''id'', PStr ''a''), (''pid'', PInt 1),
                    (''started_at'', PStr ''2024-07-03T10:30:00Z'')]))"
    and file_b: "map_of (meta st) ''proc_b.json'' =
           Some (Parsed (PDict [(''id'', PStr ''b''), (''pid'', PInt 2),
                    (''started_at'', PStr ''2024-07-04T10:30:00Z'')]))"
    by (simp_all add: st_def)
  have "map_of (meta st') ''proc_b.json'' = None"
    using look [rule_format, of "''proc_b.json''"] by (simp add: matches file_b status)
  moreover have "map_of (meta st') ''proc_a.json'' =
           Some (Parsed (PDict [(''id'', PStr ''a''), (''pid'', PInt 1),
                    (''started_at'', PStr ''2024-07-03T10:30:00Z'')]))"
    using look [rule_format, of "''proc_a.json''"] by (simp add: matches file_a status)
  moreover have "logs st' = [(''a.log'', ''started''), (''b.log'', ''started'')]"
    using lg by (simp add: st_def)
  ultimately show ?thesis
    using run unfolding st_def by blast
qed

section \<open>Records without a process identifier\<close>

text \<open>
  C10. A process record whose \<open>pid\<close> is 0 or missing counts as having no process identifier.
  \<^verbatim>\<open>update_process_status\<close> sets its status to \<open>unknown\<close> and probes nothing, so the process
  list shows it as \<open>unknown\<close>, and the probes of a listing are those of the other records;
  \<^verbatim>\<open>mcp__process_stop\<close> on it returns false, writes nothing and makes no system call, so no
  signal is delivered.
\<close>

theorem no_pid_is_unknown:
  assumes "map_of d ''pid'' = None \<or> map_of d ''pid'' = Some (PInt 0)"
  shows "update_process_status alive (PDict d) =
           Inr (PDict (AList.update ''status'' (PStr ''unknown'') d), [])
       \<and> effective_status alive (PDict d) = ''unknown''
       \<and> probes_of (PDict d) = []
       \<and> (files_ok process_ok ''proc_'' ''.json'' procs \<and>
          (name, Parsed (PDict d)) \<in> set (glob ''proc_'' ''.json'' procs) \<longrightarrow>
            (\<exists>entries. mcp__process_list alive procs None =
                 Inr (entries, concat (map probes_of (listed ''proc_'' ''.json'' procs)))
               \<and> process_entry (with_status alive (PDict d)) \<in> set entries
               \<and> value_of (process_entry (with_status alive (PDict d))) ''id'' PNone
                    = value_of (PDict d) ''id'' PNone
               \<and> value_of (process_entry (with_status alive (PDict d))) ''status'' PNone
                    = PStr ''unknown''))
       \<and> (map_of procs (get_process_path process_id) = Some (Parsed (PDict d)) \<longrightarrow>
            mcp__process_stop env procs process_id = Inr (False, procs, []))"
proof -
  have falsy: "case map_of d ''pid'' of None \<Rightarrow> True | Some v \<Rightarrow> \<not> truthy v"
    using assms by auto
  have upd: "update_process_status alive (PDict d) =
           Inr (PDict (AList.update ''status'' (PStr ''unknown'') d), [])"
    using assms by (auto simp: update_process_status_def)
  have eff: "effective_status alive (PDict d) = ''unknown''"
    using assms by (auto simp: effective_status_def value_of_def)
  have probes: "probes_of (PDict d) = []"
    using assms by (auto simp: probes_of_def value_of_def)
  have listing: "files_ok process_ok ''proc_'' ''.json'' procs \<and>
          (name, Parsed (PDict d)) \<in> set (glob ''proc_'' ''.json'' procs) \<longrightarrow>
            (\<exists>entries. mcp__process_list alive procs None =
                 Inr (entries, concat (map probes_of (listed ''proc_'' ''.json'' procs)))
               \<and> process_entry (with_status alive (PDict d)) \<in> set entries
               \<and> value_of (process_entry (with_status alive (PDict d))) ''id'' PNone
                    = value_of (PDict d) ''id'' PNone
               \<and> value_of (process_entry (with_status alive (PDict d))) ''status'' PNone
                    = PStr ''unknown'')"
  proof (intro impI, elim conjE)
    assume ok: "files_ok process_ok ''proc_'' ''.json'' procs"
       and mem: "(name, Parsed (PDict d)) \<in> set (glob ''proc_'' ''.json'' procs)"
    from process_list_sorted [OF ok, of alive None] obtain ps where
      ps: "mset ps = mset (map (with_status alive) (listed ''proc_'' ''.json'' procs))"
          "mcp__process_list alive procs None =
             Inr (map process_entry ps, concat (map probes_of (listed ''proc_'' ''.json'' procs)))"
      by auto
    from mem have "PDict d \<in> set (listed ''proc_'' ''.json'' procs)"
      by (auto simp: listed_set)
    then have "with_status alive (PDict d) \<in> set (map (with_status alive) (listed ''proc_'' ''.json'' procs))"
      by simp
    then have "with_status alive (PDict d) \<in> set ps"
      using ps(1) by (metis mset_eq_setD)
    then have inl: "process_entry (with_status alive (PDict d)) \<in> set (map process_entry ps)"
      by simp
    have "value_of (process_entry (with_status alive (PDict d))) ''status'' PNone = PStr ''unknown''"
      by (simp add: process_entry_def with_status_fields eff value_of_def [of "PDict _"])
    moreover have "value_of (process_entry (with_status alive (PDict d))) ''id'' PNone
                    = value_of (PDict d) ''id'' PNone"
      by (simp add: process_entry_def with_status_fields value_of_def [of "PDict [_, _, _, _, _, _]"])
    ultimately show "\<exists>entries. mcp__process_list alive procs None =
                 Inr (entries, concat (map probes_of (listed ''proc_'' ''.json'' procs)))
               \<and> process_entry (with_status alive (PDict d)) \<in> set entries
               \<and> value_of (process_entry (with_status alive (PDict d))) ''id'' PNone
                    = value_of (PDict d) ''id'' PNone
               \<and> value_of (process_entry (with_status alive (PDict d))) ''status'' PNone
                    = PStr ''unknown''"
      using ps(2) inl by blast
  qed
  have stop: "map_of procs (get_process_path process_id) = Some (Parsed (PDict d)) \<longrightarrow>
            mcp__process_stop env procs process_id = Inr (False, procs, [])"
    using stop_no_pid [OF _ falsy] by blast
  show ?thesis
    using upd eff probes listing stop by blast
qed

theorem no_pid_is_unknown_witness:
  "mcp__process_list (\<lambda>pid. True)
     [(''proc_a.json'', Parsed (PDict [(''id'', PStr ''a''), (''name'', PStr ''web''),
          (''owner'', PStr ''me''), (''pid'', PInt 0),
          (''started_at'', PStr ''2024-07-03T10:30:00Z'')]))] None
   = Inr ([PDict [(''id'', PStr ''a''), (''name'', PStr ''web''), (''owner'', PStr ''me''),
                  (''status'', PStr ''unknown''), (''started_at'', PStr ''2024-07-03T10:30:00Z''),
                  (''pid'', PInt 0)]], [])
   \<and> mcp__process_stop
        \<lparr>pgid_term = Some 0, term_ok = True, probe = (\<lambda>pid. False), pgid_kill = None, kill_ok = False,
         stop_time = ''2024-07-03T10:30:00''\<rparr>
        [(''proc_a.json'', Parsed (PDict [(''id'', PStr ''a''), (''name'', PStr ''web''),
          (''owner'', PStr ''me''), (''pid'', PInt 0),
          (''started_at'', PStr ''2024-07-03T10:30:00Z'')]))] ''a''
     = Inr (False,
        [(''proc_a.json'', Parsed (PDict [(''id'', PStr ''a''), (''name'', PStr ''web''),
          (''owner'', PStr ''me''), (''pid'', PInt 0),
          (''started_at'', PStr ''2024-07-03T10:30:00Z'')]))], [])"
proof -
  define d where "d = [(''id'', PStr ''a''), (''name'', PStr ''web''),
          (''owner'', PStr ''me''), (''pid'', PInt 0),
          (''started_at'', PStr ''2024-07-03T10:30:00Z'')]"
  define procs where "procs = [(''proc_a.json'', Parsed (PDict d))]"
  have pid: "map_of d ''pid'' = None \<or> map_of d ''pid'' = Some (PInt 0)"
    by (simp add: d_def)
  have ok: "files_ok process_ok ''proc_'' ''.json'' procs"
    by (simp add: procs_def d_def files_ok_def glob_def glob_match_def process_ok_def pid_ok_def
        value_of_def)
  have mem: "(''proc_a.json'', Parsed (PDict d)) \<in> set (glob ''proc_'' ''.json'' procs)"
    by (simp add: procs_def glob_def glob_match_def)
  have stored: "map_of procs (get_process_path ''a'') = Some (Parsed (PDict d))"
    by (simp add: procs_def get_process_path_def)
  have records: "listed ''proc_'' ''.json'' procs = [PDict d]"
    by (simp add: procs_def listed_def glob_def glob_match_def)
  from no_pid_is_unknown [OF pid, of "\<lambda>pid. True" procs "''proc_a.json''" "''a''"
      "\<lparr>pgid_term = Some 0, term_ok = True, probe = (\<lambda>pid. False), pgid_kill = None, kill_ok = False,
         stop_time = ''2024-07-03T10:30:00''\<rparr>"] ok mem stored
  have stop: "mcp__process_stop
        \<lparr>pgid_term = Some 0, term_ok = True, probe = (\<lambda>pid. False), pgid_kill = None, kill_ok = False,
         stop_time = ''2024-07-03T10:30:00''\<rparr> procs ''a'' = Inr (False, procs, [])"
    and probes: "probes_of (PDict d) = []"
    by blast+
  have "mcp__process_list (\<lambda>pid. True) procs None =
     Inr ([PDict [(''id'', PStr ''a''), (''name'', PStr ''web''), (''owner'', PStr ''me''),
                  (''status'', PStr ''unknown''), (''started_at'', PStr ''2024-07-03T10:30:00Z''),
                  (''pid'', PInt 0)]], [])"
    by (simp add: mcp__process_list_def list_processes_def procs_def d_def glob_def glob_match_def
        try_load_def update_process_status_def sort_newest_first_def process_summary_def)
  with stop show ?thesis
    by (simp add: procs_def d_def)
qed

section \<open>Sending a message and reading the inbox\<close>

lemma uuid_str_no_slash: "CHR ''/'' \<notin> set (uuid_str n)"
proof -
  define A where "A = set ''0123456789abcdef''"
  have digit: "\<And>k. k < 16 \<Longrightarrow> hexdigit k \<in> A"
    unfolding hexdigit_def A_def by (intro nth_mem) simp
  have h: "set (hex32 n) \<subseteq> A"
    unfolding hex32_def using digit by auto
  have t: "\<And>k. set (take k (hex32 n)) \<subseteq> A"
    using h set_take_subset by fastforce
  have d: "\<And>k. set (drop k (hex32 n)) \<subseteq> A"
    using h set_drop_subset by fastforce
  have td: "\<And>j k. set (take j (drop k (hex32 n))) \<subseteq> A"
    using d set_take_subset by fastforce
  have "set (uuid_str n) \<subseteq> insert CHR ''-'' A"
    unfolding uuid_str_def Let_def set_append
    using t [of 8] d [of 20] td [of 4 8] td [of 4 12] td [of 4 16] by auto
  moreover have "CHR ''/'' \<notin> insert CHR ''-'' A"
    by (simp add: A_def)
  ultimately show ?thesis by blast
qed

lemma message_path_listed:
  assumes "CHR ''/'' \<notin> set s"
  shows "glob_match ''msg_'' ''.json'' (get_message_path s)"
proof -
  have "length (get_message_path s) - length ''.json'' = length (''msg_'' @ s)"
    by (simp add: get_message_path_def)
  then have "drop (length (get_message_path s) - length ''.json'') (get_message_path s) = ''.json''"
    by (simp add: get_message_path_def)
  moreover have "take (length ''msg_'') (get_message_path s) = ''msg_''"
    by (simp add: get_message_path_def)
  moreover have "CHR ''/'' \<notin> set (get_message_path s)"
    using assms by (simp add: get_message_path_def)
  moreover have "length ''msg_'' + length ''.json'' \<le> length (get_message_path s)"
    by (simp add: get_message_path_def)
  ultimately show ?thesis
    unfolding glob_match_def by blast
qed

lemma mset_update_distinct:
  "distinct (map fst al) \<Longrightarrow>
   mset (AList.update k v al) = mset (filter (\<lambda>p. fst p \<noteq> k) al @ [(k, v)])"
proof (induction al)
  case Nil
  then show ?case by simp
next
  case (Cons p al)
  show ?case
  proof (cases "fst p = k")
    case True
    with Cons.prems have "filter (\<lambda>p. fst p \<noteq> k) al = al"
      by (auto simp: filter_id_conv image_iff)
    with True show ?thesis by (cases p) simp
  next
    case False
    with Cons show ?thesis by (cases p) simp
  qed
qed

lemma listed_mset_cong:
  "mset fs = mset gs \<Longrightarrow> mset (listed pre suf fs) = mset (listed pre suf gs)"
proof -
  assume eq: "mset fs = mset gs"
  have "\<And>xs. mset (listed pre suf xs) =
      image_mset (\<lambda>nf. the (parsed_value (snd nf)))
       (filter_mset (\<lambda>nf. parsed_value (snd nf) \<noteq> None)
          (filter_mset (\<lambda>nf. glob_match pre suf (fst nf)) (mset xs)))"
    unfolding listed_def glob_def map_filter_def case_prod_unfold comp_def
    by (simp only: mset_map mset_filter)
  then show ?thesis
    by (simp only: eq)
qed

lemma listed_append:
  "listed pre suf (xs @ ys) = listed pre suf xs @ listed pre suf ys"
  by (simp add: listed_def glob_def map_filter_def)

lemma listed_update:
  assumes "distinct (map fst fs)" "glob_match pre suf k"
  shows "mset (listed pre suf (AList.update k (Parsed m) fs)) =
         mset (listed pre suf (filter (\<lambda>p. fst p \<noteq> k) fs)) + {#m#}"
proof -
  have "listed pre suf [(k, Parsed m)] = [m]"
    using assms(2) by (simp add: listed_def glob_def map_filter_def)
  then show ?thesis
    using listed_mset_cong [OF mset_update_distinct [OF assms(1), of k "Parsed m"], of pre suf]
    by (simp add: listed_append)
qed

lemma files_ok_update:
  assumes "files_ok P pre suf fs" "P m"
  shows "files_ok P pre suf (AList.update k (Parsed m) fs)"
proof -
  have "set (AList.update k (Parsed m) fs) \<subseteq> insert (k, Parsed m) (set fs)"
    by (induction fs) auto
  then show ?thesis
    using assms by (auto simp: files_ok_def list_all_iff glob_def)
qed

lemma inbox_entry_id [simp]:
  "value_of (inbox_entry x) ''id'' PNone = value_of x ''id'' PNone"
  by (simp add: inbox_entry_def value_of_def [of "PDict _"])

text \<open>
  C8. Let \<^verbatim>\<open>mcp__mail_send\<close> return the identifier it drew into a store of messages in which no
  other message carries that identifier. Then the inbox of every recipient of the message has
  exactly one entry with the identifier; its \<open>from\<close>, \<open>subject\<close> and \<open>timestamp\<close> are those of the
  message sent and its \<open>read\<close> is false.
\<close>

theorem mail_send_then_inbox:
  assumes names: "distinct (map fst mail)"
      and files: "files_ok message_ok ''msg_'' ''.json'' mail"
      and others: "\<forall>(name, f) \<in> set mail. name \<noteq> get_message_path (uuid_str uuid4) \<longrightarrow>
                     (\<forall>v. f = Parsed v \<longrightarrow> value_of v ''id'' PNone \<noteq> PStr (uuid_str uuid4))"
      and rcpt: "r \<in> set to_agents"
  shows "\<exists>mail' inbox.
           mcp__mail_send uuid4 now mail from_agent to_agents subject body
             = Inr (uuid_str uuid4, mail')
         \<and> mcp__mail_inbox mail' r = Inr inbox
         \<and> filter (\<lambda>e. value_of e ''id'' PNone = PStr (uuid_str uuid4)) inbox =
             [PDict [(''id'', PStr (uuid_str uuid4)), (''from'', PStr from_agent),
                     (''subject'', PStr subject), (''timestamp'', PStr (now @ ''Z'')),
                     (''read'', PBool False)]]"
proof -
  define new where "new = uuid_str uuid4"
  define m where "m = PDict [(''id'', PStr new), (''from'', PStr from_agent),
                           (''to'', PList (map PStr to_agents)), (''subject'', PStr subject),
                           (''body'', PStr body), (''timestamp'', PStr (now @ ''Z'')),
                           (''read'', PBool False)]"
  define k where "k = get_message_path new"
  define mail' where "mail' = AList.update k (Parsed m) mail"
  define Q where "Q = (\<lambda>x. addressed_to r x \<and> value_of x ''id'' PNone = PStr new)"
  have send: "mcp__mail_send uuid4 now mail from_agent to_agents subject body = Inr (new, mail')"
    by (simp add: mcp__mail_send_def generate_message_id_def save_message_def Let_def
        new_def m_def mail'_def k_def)
  have m_ok: "message_ok m"
    by (simp add: m_def message_ok_def)
  have ok': "files_ok message_ok ''msg_'' ''.json'' mail'"
    unfolding mail'_def using files m_ok by (rule files_ok_update)
  from mail_listings_sorted [OF ok', of r] obtain ms where
    ms: "mset ms = mset (listed ''msg_'' ''.json'' mail')"
        "mcp__mail_inbox mail' r = Inr (map inbox_entry (filter (addressed_to r) ms))"
    by blast
  have match: "glob_match ''msg_'' ''.json'' k"
    unfolding k_def new_def by (intro message_path_listed uuid_str_no_slash)
  have split: "mset (listed ''msg_'' ''.json'' mail') =
      mset (listed ''msg_'' ''.json'' (filter (\<lambda>p. fst p \<noteq> k) mail)) + {#m#}"
    unfolding mail'_def using names match by (rule listed_update)
  have none: "\<And>v. v \<in> set (listed ''msg_'' ''.json'' (filter (\<lambda>p. fst p \<noteq> k) mail)) \<Longrightarrow> \<not> Q v"
  proof -
    fix v assume "v \<in> set (listed ''msg_'' ''.json'' (filter (\<lambda>p. fst p \<noteq> k) mail))"
    then obtain name where "(name, Parsed v) \<in> set mail" "name \<noteq> k"
      by (auto simp: listed_set glob_set)
    with others show "\<not> Q v"
      by (auto simp: Q_def k_def new_def)
  qed
  have Qm: "Q m"
    using rcpt by (simp add: Q_def m_def addressed_to_def value_of_def)
  have "mset (filter Q ms) = filter_mset Q (mset (listed ''msg_'' ''.json'' mail'))"
    by (simp only: mset_filter ms(1))
  also have "\<dots> = filter_mset Q (mset (listed ''msg_'' ''.json'' (filter (\<lambda>p. fst p \<noteq> k) mail)))
                   + {#m#}"
    using Qm by (simp add: split)
  also have "filter_mset Q (mset (listed ''msg_'' ''.json'' (filter (\<lambda>p. fst p \<noteq> k) mail))) = {#}"
    using none by simp
  finally have "mset (filter Q ms) = {#m#}"
    by simp
  then have one: "filter Q ms = [m]"
    by (simp only: mset_single_iff)
  have "filter (\<lambda>e. value_of e ''id'' PNone = PStr new)
          (map inbox_entry (filter (addressed_to r) ms)) = map inbox_entry (filter Q ms)"
    by (simp add: filter_map comp_def Q_def conj_commute)
  also have "\<dots> = [inbox_entry m]"
    by (simp add: one)
  also have "inbox_entry m =
             PDict [(''id'', PStr new), (''from'', PStr from_agent),
                     (''subject'', PStr subject), (''timestamp'', PStr (now @ ''Z'')),
                     (''read'', PBool False)]"
    by (simp add: inbox_entry_def m_def value_of_def)
  finally show ?thesis
    using send ms(2) unfolding new_def by blast
qed

theorem mail_send_then_inbox_witness:
  "\<exists>mail' inbox.
     mcp__mail_send 0 ''2024-07-04T10:30:00''
       [(''msg_old.json'', Parsed (PDict [(''id'', PStr ''old''), (''from'', PStr ''carol''),
          (''to'', PList [PStr ''bob'']), (''subject'', PStr ''earlier''),
          (''timestamp'', PStr ''2024-07-03T10:30:00Z''), (''read'', PBool True)]))]
       ''alice'' [''bob'', ''dave''] ''hello'' ''text''
       = Inr (''00000000-0000-0000-0000-000000000000'', mail')
     \<and> mcp__mail_inbox mail' ''bob'' = Inr inbox
     \<and> filter (\<lambda>e. value_of e ''id'' PNone = PStr ''00000000-0000-0000-0000-000000000000'') inbox =
         [PDict [(''id'', PStr ''00000000-0000-0000-0000-000000000000''), (''from'', PStr ''alice''),
                 (''subject'', PStr ''hello''), (''timestamp'', PStr ''2024-07-04T10:30:00Z''),
                 (''read'', PBool False)]]"
proof -
  define mail where "mail =
       [(''msg_old.json'', Parsed (PDict [(''id'', PStr ''old''), (''from'', PStr ''carol''),
          (''to'', PList [PStr ''bob'']), (''subject'', PStr ''earlier''),
          (''timestamp'', PStr ''2024-07-03T10:30:00Z''), (''read'', PBool True)]))]"
  have "hex32 0 = replicate 32 (CHR ''0'')"
    by (simp add: hex32_def hexdigit_def map_replicate_const)
  then have drawn: "uuid_str 0 = ''00000000-0000-0000-0000-000000000000''"
    by (simp add: uuid_str_def Let_def numeral_eq_Suc)
  have names: "distinct (map fst mail)"
    by (simp add: mail_def)
  have files: "files_ok message_ok ''msg_'' ''.json'' mail"
    by (simp add: mail_def files_ok_def glob_def glob_match_def message_ok_def)
  have others: "\<forall>(name, f) \<in> set mail. name \<noteq> get_message_path (uuid_str 0) \<longrightarrow>
                     (\<forall>v. f = Parsed v \<longrightarrow> value_of v ''id'' PNone \<noteq> PStr (uuid_str 0))"
    by (simp add: mail_def drawn value_of_def)
  have rcpt: "''bob'' \<in> set [''bob'', ''dave'']"
    by simp
  from mail_send_then_inbox [OF names files others rcpt,
      of "''2024-07-04T10:30:00''" "''alice''" "''hello''" "''text''"]
  show ?thesis
    unfolding drawn mail_def by simp
qed

end
